theory Spec2Isabelle
  imports Complex_Main
begin

section \<open>JavaScript numbers\<close>

text \<open>
  A JavaScript number is an IEEE 754 double: NaN, an infinity, a zero with a sign, or a
  finite value. A finite number carries its exact value as a real; \<open>Fin 0\<close> is the
  positive zero and \<open>NegZero\<close> the negative one. Not every real is the value of a double:
  \<open>is_double\<close> below says which are, and every arithmetic operation rounds its exact
  result to one.
\<close>

datatype jsnum = NaN | NegInf | Fin real | PosInf | NegZero

fun num_val :: "jsnum \<Rightarrow> real" where
  "num_val (Fin r) = r"
| "num_val _ = 0"

fun is_zero :: "jsnum \<Rightarrow> bool" where
  "is_zero (Fin r) = (r = 0)"
| "is_zero NegZero = True"
| "is_zero _ = False"

text \<open>The sign bit.\<close>

fun is_neg :: "jsnum \<Rightarrow> bool" where
  "is_neg (Fin r) = (r < 0)"
| "is_neg NegZero = True"
| "is_neg NegInf = True"
| "is_neg _ = False"

fun is_inf :: "jsnum \<Rightarrow> bool" where
  "is_inf NegInf = True"
| "is_inf PosInf = True"
| "is_inf _ = False"

fun is_finite :: "jsnum \<Rightarrow> bool" where
  "is_finite (Fin r) = True"
| "is_finite NegZero = True"
| "is_finite _ = False"

text \<open>
  The operator \<open><\<close>: every comparison with NaN is false, the two zeros compare equal, and
  two doubles compare as their exact values.
\<close>

fun js_lt :: "jsnum \<Rightarrow> jsnum \<Rightarrow> bool" where
  "js_lt NaN _ = False"
| "js_lt _ NaN = False"
| "js_lt PosInf _ = False"
| "js_lt _ NegInf = False"
| "js_lt NegInf _ = True"
| "js_lt _ PosInf = True"
| "js_lt a b = (num_val a < num_val b)"

definition js_gt :: "jsnum \<Rightarrow> jsnum \<Rightarrow> bool" where
  "js_gt a b = js_lt b a"

text \<open>\<open>a <= b\<close> of JavaScript: neither operand is NaN and \<open>b < a\<close> is false.\<close>

definition js_le :: "jsnum \<Rightarrow> jsnum \<Rightarrow> bool" where
  "js_le a b = (a \<noteq> NaN \<and> b \<noteq> NaN \<and> \<not> js_lt b a)"

text \<open>\<open>a === b\<close> on numbers: NaN equals nothing, and the two zeros are equal.\<close>

definition js_eq :: "jsnum \<Rightarrow> jsnum \<Rightarrow> bool" where
  "js_eq a b = (a \<noteq> NaN \<and> b \<noteq> NaN \<and> \<not> js_lt a b \<and> \<not> js_lt b a)"

definition isNaN :: "jsnum \<Rightarrow> bool" where
  "isNaN v = (v = NaN)"

subsection \<open>Rounding to a double\<close>

text \<open>
  Round to nearest, ties to even, in binary64. A real \<open>r\<close> lies in the binade of exponent
  \<open>expo r\<close>, which is the exponent of its leading bit and never less than \<open>-1022\<close> (zero
  and the subnormal numbers share the least exponent). The doubles of that binade are
  the integer multiples of \<open>ulp r = 2^(expo r - 52)\<close>, and \<open>rnd r\<close> is the nearest of them,
  the one with the even multiplier when two are equally near.
\<close>

definition round_half_even :: "real \<Rightarrow> int" where
  "round_half_even t =
     (let f = \<lfloor>t\<rfloor>; d = t - of_int f
      in if d < 1 / 2 then f else if 1 / 2 < d then f + 1 else if even f then f else f + 1)"

definition expo :: "real \<Rightarrow> int" where
  "expo r = (if r = 0 then - 1022 else max \<lfloor>log 2 \<bar>r\<bar>\<rfloor> (- 1022))"

definition ulp :: "real \<Rightarrow> real" where
  "ulp r = 2 powr (of_int (expo r - 52))"

definition rnd :: "real \<Rightarrow> real" where
  "rnd r = (if r = 0 then 0 else of_int (round_half_even (r / ulp r)) * ulp r)"

text \<open>
  The result of an operation whose exact result is \<open>r\<close>. A result that rounds to zero keeps
  the sign of \<open>r\<close>, and \<open>neg\<close> is the sign of an exact zero; a result that rounds to
  \<open>2^1024\<close> or beyond in magnitude overflows to an infinity.
\<close>

definition round64 :: "bool \<Rightarrow> real \<Rightarrow> jsnum" where
  "round64 neg r =
     (let v = rnd r
      in if v = 0 then (if r < 0 \<or> (r = 0 \<and> neg) then NegZero else Fin 0)
         else if 2 ^ 1024 \<le> \<bar>v\<bar> then (if v < 0 then NegInf else PosInf)
         else Fin v)"

text \<open>A number that is a double: its value is not changed by rounding and does not overflow.\<close>

fun is_double :: "jsnum \<Rightarrow> bool" where
  "is_double (Fin r) = (rnd r = r \<and> \<bar>r\<bar> < 2 ^ 1024)"
| "is_double _ = True"

subsection \<open>Arithmetic\<close>

text \<open>
  The operators \<open>*\<close>, \<open>/\<close>, \<open>+\<close> and \<open>-\<close> and the functions \<open>Math.min\<close> and \<open>Math.max\<close>.
  NaN propagates; an infinity times a zero, a quotient of two infinities or of two zeros, and
  a sum of opposite infinities are NaN; the sign of a product or quotient is the exclusive or
  of the signs; an exact zero sum is negative only when both summands are negative;
  \<open>Math.min\<close> and \<open>Math.max\<close> take the negative zero as the smaller zero.
\<close>

definition js_mul :: "jsnum \<Rightarrow> jsnum \<Rightarrow> jsnum" where
  "js_mul a b =
     (if a = NaN \<or> b = NaN then NaN
      else if is_inf a \<or> is_inf b then
        (if is_zero a \<or> is_zero b then NaN
         else if is_neg a \<noteq> is_neg b then NegInf else PosInf)
      else round64 (is_neg a \<noteq> is_neg b) (num_val a * num_val b))"

definition js_div :: "jsnum \<Rightarrow> jsnum \<Rightarrow> jsnum" where
  "js_div a b =
     (if a = NaN \<or> b = NaN then NaN
      else if is_inf a then
        (if is_inf b then NaN else if is_neg a \<noteq> is_neg b then NegInf else PosInf)
      else if is_inf b then (if is_neg a \<noteq> is_neg b then NegZero else Fin 0)
      else if is_zero b then
        (if is_zero a then NaN else if is_neg a \<noteq> is_neg b then NegInf else PosInf)
      else round64 (is_neg a \<noteq> is_neg b) (num_val a / num_val b))"

definition js_add :: "jsnum \<Rightarrow> jsnum \<Rightarrow> jsnum" where
  "js_add a b =
     (if a = NaN \<or> b = NaN then NaN
      else if is_inf a then (if is_inf b \<and> a \<noteq> b then NaN else a)
      else if is_inf b then b
      else round64 (is_neg a \<and> is_neg b) (num_val a + num_val b))"

fun js_neg :: "jsnum \<Rightarrow> jsnum" where
  "js_neg NaN = NaN"
| "js_neg NegInf = PosInf"
| "js_neg PosInf = NegInf"
| "js_neg NegZero = Fin 0"
| "js_neg (Fin r) = (if r = 0 then NegZero else Fin (- r))"

definition js_sub :: "jsnum \<Rightarrow> jsnum \<Rightarrow> jsnum" where
  "js_sub a b = js_add a (js_neg b)"

definition js_max :: "jsnum \<Rightarrow> jsnum \<Rightarrow> jsnum" where
  "js_max a b =
     (if a = NaN \<or> b = NaN then NaN
      else if js_lt a b then b
      else if js_lt b a then a
      else if is_neg a then b else a)"

definition js_min :: "jsnum \<Rightarrow> jsnum \<Rightarrow> jsnum" where
  "js_min a b =
     (if a = NaN \<or> b = NaN then NaN
      else if js_lt a b then a
      else if js_lt b a then b
      else if is_neg a then a else b)"

text \<open>\<open>Math.PI\<close>, the double nearest to \<open>pi\<close>: \<open>0x400921FB54442D18\<close>.\<close>

definition MATH_PI :: real where
  "MATH_PI = 884279719003555 / 2 ^ 48"

section \<open>JavaScript values\<close>

text \<open>
  The raw input of the validator is untyped at run time: any value can arrive where the
  TypeScript signature promises an array of data points. An object is its list of
  properties; a property that is absent reads as \<open>undefined\<close>. An array is the list of its
  elements, and an element that is absent (a hole of a sparse array, as in \<open>[ , p]\<close>) is
  \<open>None\<close>: a hole counts in the length and is skipped by \<open>forEach\<close>.
\<close>

datatype jsval =
    JUndefined
  | JNull
  | JBool bool
  | JNum jsnum
  | JStr string
  | JObj "(string \<times> jsval) list"
  | JArr "jsval option list"

fun truthy :: "jsval \<Rightarrow> bool" where
  "truthy JUndefined = False"
| "truthy JNull = False"
| "truthy (JBool b) = b"
| "truthy (JNum v) = (v \<noteq> NaN \<and> \<not> is_zero v)"
| "truthy (JStr s) = (s \<noteq> [])"
| "truthy (JObj fs) = True"
| "truthy (JArr xs) = True"

fun typeof :: "jsval \<Rightarrow> string" where
  "typeof JUndefined = ''undefined''"
| "typeof JNull = ''object''"
| "typeof (JBool b) = ''boolean''"
| "typeof (JNum v) = ''number''"
| "typeof (JStr s) = ''string''"
| "typeof (JObj fs) = ''object''"
| "typeof (JArr xs) = ''object''"

text \<open>
  \<open>point.name\<close> and \<open>point.value\<close>: an array has neither property, so both read as
  \<open>undefined\<close> there. Only objects and arrays reach a property read in the validator.
\<close>

fun get_prop :: "jsval \<Rightarrow> string \<Rightarrow> jsval" where
  "get_prop (JObj fs) k = (case map_of fs k of None \<Rightarrow> JUndefined | Some v \<Rightarrow> v)"
| "get_prop _ k = JUndefined"

section \<open>Strings\<close>

text \<open>
  Strings are sequences of 8-bit characters (the Latin-1 part of JavaScript's UTF-16 code
  units). \<open>trim\<close> removes the white space and line terminators of that range at both
  ends; \<open>toLowerCase\<close> maps \<open>A\<close>..\<open>Z\<close> and the upper-case letters of \<open>0xC0\<close>..\<open>0xDE\<close>
  (all but the multiplication sign \<open>0xD7\<close>) to the letter 32 code points above.
\<close>

definition isWhiteSpace :: "char \<Rightarrow> bool" where
  "isWhiteSpace c =
     (c \<in> {CHR 0x09, CHR 0x0A, CHR 0x0B, CHR 0x0C, CHR 0x0D, CHR 0x20, CHR 0xA0})"

definition trim :: "string \<Rightarrow> string" where
  "trim s = rev (dropWhile isWhiteSpace (rev (dropWhile isWhiteSpace s)))"

definition toLowerChar :: "char \<Rightarrow> char" where
  "toLowerChar c =
     (let n = (of_char c :: nat)
      in if (65 \<le> n \<and> n \<le> 90) \<or> (192 \<le> n \<and> n \<le> 222 \<and> n \<noteq> 215)
         then char_of (n + 32) else c)"

definition toLowerCase :: "string \<Rightarrow> string" where
  "toLowerCase s = map toLowerChar s"

definition digit :: "nat \<Rightarrow> char" where
  "digit d = ''0123456789'' ! d"

text \<open>The decimal digits of a natural number, as a template literal prints an index.\<close>

fun string_of_nat :: "nat \<Rightarrow> string" where
  "string_of_nat n =
     (if n < 10 then [digit n] else string_of_nat (n div 10) @ [digit (n mod 10)])"

declare string_of_nat.simps [simp del]

text \<open>
  A number inside a template literal is printed by \<open>Number::toString\<close>. NaN and the
  infinities print by name and both zeros as \<open>0\<close>. An integer below \<open>2^53\<close> in magnitude
  prints as its decimal digits: it is a double whose neighbours are at most 1 away, so no
  shorter decimal reads back as it. Every other value prints as the shortest decimal that
  reads back as the same double (from \<open>2^53\<close> on with zeros in place of the digits that are
  not needed), which depends on the binary representation: that part is the parameter
  \<open>fmt\<close>.
\<close>

definition number_to_string :: "(real \<Rightarrow> string) \<Rightarrow> jsnum \<Rightarrow> string" where
  "number_to_string fmt v =
     (case v of
        NaN \<Rightarrow> ''NaN''
      | PosInf \<Rightarrow> ''Infinity''
      | NegInf \<Rightarrow> ''-Infinity''
      | NegZero \<Rightarrow> ''0''
      | Fin r \<Rightarrow>
          if of_int \<lfloor>r\<rfloor> = r \<and> \<bar>r\<bar> < 2 ^ 53
          then (if r < 0 then ''-'' else '''') @ string_of_nat (nat \<lfloor>\<bar>r\<bar>\<rfloor>)
          else fmt r)"

text \<open>
  The closed examples below use numbers that never reach \<open>fmt\<close>; they pass a format that
  prints nothing.
\<close>

definition no_format :: "real \<Rightarrow> string" where
  "no_format r = []"

section \<open>Validation results\<close>

datatype ErrorType =
  MISSING_DATA | INVALID_DATA_TYPE | EMPTY_VALUES | INVALID_RANGE | DUPLICATE_NAMES

datatype WarningType =
  DATA_CLAMPED | EMPTY_NAME | SPECIAL_CHARACTERS | LONG_NAME

text \<open>
  \<open>ValidationError\<close> and \<open>ValidationWarning\<close> have the same four fields and differ in
  the type tag only; \<open>field\<close> and \<open>index\<close> are optional.
\<close>

record 't ValidationIssue =
  type :: 't
  message :: string
  field :: "string option"
  index :: "nat option"

type_synonym ValidationError = "ErrorType ValidationIssue"
type_synonym ValidationWarning = "WarningType ValidationIssue"

text \<open>
  A data point. Its value is a double in the validator and in the geometry code. The
  normalizer only copies values and appends zeros, so it is defined for every type of
  values that has a zero, and the type of the value is a parameter.
\<close>

record 'n RadarChartDataPoint =
  name :: string
  "value" :: 'n

record ValidationResult =
  isValid :: bool
  errors :: "ValidationError list"
  warnings :: "ValidationWarning list"
  processedData :: "jsnum RadarChartDataPoint list option"

section \<open>Constants\<close>

definition MAX_NAME_LENGTH :: nat where
  "MAX_NAME_LENGTH = 20"

text \<open>The pattern \<open>/[<>'"&]/\<close>: the name holds one of the five characters.\<close>

definition SPECIAL_CHAR_PATTERN_test :: "string \<Rightarrow> bool" where
  "SPECIAL_CHAR_PATTERN_test s =
     (\<exists>c \<in> set s. c \<in> {CHR ''<'', CHR ''>'', CHR 0x27, CHR 0x22, CHR ''&''})"

definition EMPTY_DATA_MESSAGE :: string where
  "EMPTY_DATA_MESSAGE = ''Data source is empty. Please add data to display the chart.''"

definition NO_DATA_MESSAGE :: string where
  "NO_DATA_MESSAGE = ''No data points provided or data is not an array''"

definition MINIMUM_SPOKES :: nat where
  "MINIMUM_SPOKES = 5"

definition PADDING :: jsnum where
  "PADDING = Fin 60"

text \<open>
  The literal \<open>0.15\<close> is the double nearest to \<open>15 / 100\<close>, which is
  \<open>5404319552844595 / 2^55\<close>, a little less than \<open>15 / 100\<close>.
\<close>

definition CONTROL_POINT_DISTANCE :: jsnum where
  "CONTROL_POINT_DISTANCE = Fin (5404319552844595 / 2 ^ 55)"

section \<open>Validator\<close>

fun the_string :: "jsval \<Rightarrow> string" where
  "the_string (JStr s) = s"
| "the_string _ = []"

fun the_number :: "jsval \<Rightarrow> jsnum" where
  "the_number (JNum v) = v"
| "the_number _ = NaN"

fun isArray :: "jsval \<Rightarrow> bool" where
  "isArray (JArr xs) = True"
| "isArray _ = False"

fun the_array :: "jsval \<Rightarrow> jsval option list" where
  "the_array (JArr xs) = xs"
| "the_array _ = []"

text \<open>
  \<open>validateDataPointName(name, index, seenNames)\<close>. The set \<open>seenNames\<close> is mutated by
  the source, so the model returns it as the fourth component of the result.
  \<open>the_string\<close> is applied to strings only, behind the test of \<open>typeof\<close>.
\<close>

definition validateDataPointName ::
  "jsval \<Rightarrow> nat \<Rightarrow> string set
     \<Rightarrow> string \<times> ValidationError list \<times> ValidationWarning list \<times> string set" where
  "validateDataPointName nm idx seenNames =
     (if \<not> truthy nm \<or> typeof nm \<noteq> ''string'' then
        (''Category '' @ string_of_nat (idx + 1),
         [\<lparr>type = INVALID_DATA_TYPE,
           message = ''Name at index '' @ string_of_nat idx @ '' is missing or not a string'',
           field = Some ''name'', index = Some idx\<rparr>],
         [], seenNames)
      else
        let trimmed = trim (the_string nm);
            warnings1 =
              (if length trimmed = 0 then
                 [\<lparr>type = EMPTY_NAME,
                   message = ''Name at index '' @ string_of_nat idx @ '' is empty after trimming'',
                   field = Some ''name'', index = Some idx\<rparr>]
               else []);
            processedName =
              (if length trimmed = 0 then ''Category '' @ string_of_nat (idx + 1) else trimmed);
            errors1 =
              (if toLowerCase processedName \<in> seenNames then
                 [\<lparr>type = DUPLICATE_NAMES,
                   message = ''Duplicate name '' @ [CHR 0x22] @ processedName @ [CHR 0x22]
                     @ '' found at index '' @ string_of_nat idx,
                   field = Some ''name'', index = Some idx\<rparr>]
               else []);
            seenNames1 =
              (if toLowerCase processedName \<in> seenNames then seenNames
               else insert (toLowerCase processedName) seenNames);
            warnings2 =
              (if length processedName > MAX_NAME_LENGTH then
                 [\<lparr>type = LONG_NAME,
                   message = ''Name '' @ [CHR 0x22] @ processedName @ [CHR 0x22]
                     @ '' is very long and may be truncated in display'',
                   field = Some ''name'', index = Some idx\<rparr>]
               else []);
            warnings3 =
              (if SPECIAL_CHAR_PATTERN_test processedName then
                 [\<lparr>type = SPECIAL_CHARACTERS,
                   message = ''Name '' @ [CHR 0x22] @ processedName @ [CHR 0x22]
                     @ '' contains special characters that may affect display'',
                   field = Some ''name'', index = Some idx\<rparr>]
               else [])
        in (processedName, errors1, warnings1 @ warnings2 @ warnings3, seenNames1))"

text \<open>
  \<open>validateDataPointValue(value, index, maxValue, minValue)\<close>. \<open>the_number\<close> is applied
  to numbers only, behind the test of \<open>typeof\<close>.
\<close>

definition validateDataPointValue ::
  "(real \<Rightarrow> string) \<Rightarrow> jsval \<Rightarrow> nat \<Rightarrow> jsnum \<Rightarrow> jsnum
     \<Rightarrow> jsnum \<times> ValidationError list \<times> ValidationWarning list" where
  "validateDataPointValue fmt v idx maxValue minValue =
     (if v = JUndefined \<or> v = JNull then
        (Fin 0,
         [\<lparr>type = INVALID_DATA_TYPE,
           message = ''Value at index '' @ string_of_nat idx @ '' is missing'',
           field = Some ''value'', index = Some idx\<rparr>],
         [])
      else if typeof v \<noteq> ''number'' \<or> isNaN (the_number v) then
        (Fin 0,
         [\<lparr>type = INVALID_DATA_TYPE,
           message = ''Value at index '' @ string_of_nat idx @ '' is not a valid number'',
           field = Some ''value'', index = Some idx\<rparr>],
         [])
      else
        let processedValue = the_number v
        in if js_lt processedValue minValue then
             (minValue, [],
              [\<lparr>type = DATA_CLAMPED,
                message = ''Value '' @ number_to_string fmt processedValue @ '' at index ''
                  @ string_of_nat idx @ '' is below minimum ('' @ number_to_string fmt minValue
                  @ '') and will be clamped'',
                field = Some ''value'', index = Some idx\<rparr>])
           else if js_gt processedValue maxValue then
             (maxValue, [],
              [\<lparr>type = DATA_CLAMPED,
                message = ''Value '' @ number_to_string fmt processedValue @ '' at index ''
                  @ string_of_nat idx @ '' is above maximum ('' @ number_to_string fmt maxValue
                  @ '') and will be clamped'',
                field = Some ''value'', index = Some idx\<rparr>])
           else (processedValue, [], []))"

text \<open>
  The arrays \<open>errors\<close>, \<open>warnings\<close> and \<open>processedData\<close> and the set \<open>seenNames\<close> that
  the callback of \<open>dataPoints.forEach\<close> updates.
\<close>

record ValidationState =
  st_errors :: "ValidationError list"
  st_warnings :: "ValidationWarning list"
  st_processedData :: "jsnum RadarChartDataPoint list"
  st_seenNames :: "string set"

text \<open>The callback of \<open>forEach\<close>, applied to one element and its index.\<close>

definition validatePoint ::
  "(real \<Rightarrow> string) \<Rightarrow> jsnum \<Rightarrow> jsnum \<Rightarrow> jsval \<Rightarrow> nat
     \<Rightarrow> ValidationState \<Rightarrow> ValidationState" where
  "validatePoint fmt maxValue minValue point idx st =
     (if \<not> truthy point \<or> typeof point \<noteq> ''object'' then
        st\<lparr>st_errors := st_errors st @
          [\<lparr>type = INVALID_DATA_TYPE,
            message = ''Data point at index '' @ string_of_nat idx @ '' is not a valid object'',
            field = None, index = Some idx\<rparr>]\<rparr>
      else
        case validateDataPointName (get_prop point ''name'') idx (st_seenNames st) of
          (processedName, nameErrors, nameWarnings, seenNames1) \<Rightarrow>
        case validateDataPointValue fmt (get_prop point ''value'') idx maxValue minValue of
          (processedValue, valueErrors, valueWarnings) \<Rightarrow>
            \<lparr>st_errors = st_errors st @ nameErrors @ valueErrors,
             st_warnings = st_warnings st @ nameWarnings @ valueWarnings,
             st_processedData =
               (if processedName \<noteq> [] \<and> \<not> isNaN processedValue
                then st_processedData st @ [\<lparr>name = processedName, value = processedValue\<rparr>]
                else st_processedData st),
             st_seenNames = seenNames1\<rparr>)"

text \<open>The empty arrays and the empty set that \<open>validateRadarChartData\<close> starts from.\<close>

definition initialState :: ValidationState where
  "initialState =
     \<lparr>st_errors = [], st_warnings = [], st_processedData = [], st_seenNames = {}\<rparr>"

text \<open>
  \<open>dataPoints.forEach\<close>, from the index \<open>idx\<close> on: the callback is applied to the elements
  that are present, in order, each with its own index; a hole is passed over.
\<close>

fun forEachPoint ::
  "(real \<Rightarrow> string) \<Rightarrow> jsnum \<Rightarrow> jsnum \<Rightarrow> nat \<Rightarrow> jsval option list
     \<Rightarrow> ValidationState \<Rightarrow> ValidationState" where
  "forEachPoint fmt maxValue minValue idx [] st = st"
| "forEachPoint fmt maxValue minValue idx (None # points) st =
     forEachPoint fmt maxValue minValue (Suc idx) points st"
| "forEachPoint fmt maxValue minValue idx (Some point # points) st =
     forEachPoint fmt maxValue minValue (Suc idx) points
       (validatePoint fmt maxValue minValue point idx st)"

text \<open>
  \<open>validateRadarChartData(dataPoints, maxValue = 5, minValue = 0)\<close>. An argument that
  is left out is \<open>None\<close> and takes its default. In the two early returns the result has
  no \<open>processedData\<close> property.
\<close>

definition maxValueOrDefault :: "jsnum option \<Rightarrow> jsnum" where
  "maxValueOrDefault maxValueArg = (case maxValueArg of None \<Rightarrow> Fin 5 | Some m \<Rightarrow> m)"

definition minValueOrDefault :: "jsnum option \<Rightarrow> jsnum" where
  "minValueOrDefault minValueArg = (case minValueArg of None \<Rightarrow> Fin 0 | Some m \<Rightarrow> m)"

definition validateRadarChartData ::
  "(real \<Rightarrow> string) \<Rightarrow> jsval \<Rightarrow> jsnum option \<Rightarrow> jsnum option \<Rightarrow> ValidationResult" where
  "validateRadarChartData fmt dataPoints maxValueArg minValueArg =
     (let maxValue = maxValueOrDefault maxValueArg;
          minValue = minValueOrDefault minValueArg
      in if \<not> truthy dataPoints \<or> \<not> isArray dataPoints then
           \<lparr>isValid = False,
            errors = [\<lparr>type = MISSING_DATA, message = NO_DATA_MESSAGE,
                       field = None, index = None\<rparr>],
            warnings = [], processedData = None\<rparr>
         else if length (the_array dataPoints) = 0 then
           \<lparr>isValid = False,
            errors = [\<lparr>type = EMPTY_VALUES, message = EMPTY_DATA_MESSAGE,
                       field = None, index = None\<rparr>],
            warnings = [], processedData = None\<rparr>
         else
           let st = forEachPoint fmt maxValue minValue 0 (the_array dataPoints) initialState;
               errors1 = st_errors st @
                 (if length (st_processedData st) = 0 then
                    [\<lparr>type = EMPTY_VALUES,
                      message = ''No valid data points found after processing'',
                      field = None, index = None\<rparr>]
                  else []);
               valid = (length errors1 = 0 \<and> length (st_processedData st) > 0)
           in \<lparr>isValid = valid, errors = errors1, warnings = st_warnings st,
               processedData = (if valid then Some (st_processedData st) else None)\<rparr>)"

section \<open>Normalizer\<close>

text \<open>
  \<open>normalizedData\<close> of \<open>useChartCalculations\<close>: a copy of the data, to which the
  \<open>while\<close> loop appends zero-valued points until there are \<open>MINIMUM_SPOKES\<close> of them.
\<close>

text \<open>The number literal \<open>0\<close> as a double: the positive zero.\<close>

instantiation jsnum :: zero
begin

definition zero_jsnum_def: "0 = Fin 0"

instance ..

end

function normalizedData_while :: "('n::zero) RadarChartDataPoint list \<Rightarrow> 'n RadarChartDataPoint list" where
  "normalizedData_while processed =
     (if length processed < MINIMUM_SPOKES
      then normalizedData_while
             (processed @
                [\<lparr>name = ''Point '' @ string_of_nat (length processed + 1), value = 0\<rparr>])
      else processed)"
  by pat_completeness auto
termination
  by (relation "measure (\<lambda>processed. MINIMUM_SPOKES - length processed)") auto

declare normalizedData_while.simps [simp del]

definition normalizedData :: "('n::zero) RadarChartDataPoint list \<Rightarrow> 'n RadarChartDataPoint list" where
  "normalizedData data = normalizedData_while data"

section \<open>Geometry\<close>

text \<open>
  The geometry code computes with doubles: every operation below is the rounded one of the
  first section. \<open>Math.cos\<close> and \<open>Math.sin\<close> are approximations that the language leaves
  to the implementation, so they are the parameters \<open>cosf\<close> and \<open>sinf\<close>.
\<close>

record ChartDimensions =
  centerX :: jsnum
  centerY :: jsnum
  radius :: jsnum
  spokeCount :: jsnum
  angleStep :: jsnum

definition useChartDimensions :: "jsnum \<Rightarrow> jsnum \<Rightarrow> jsnum \<Rightarrow> ChartDimensions" where
  "useChartDimensions width height spokeCountHint =
     (let cX = js_div width (Fin 2);
          cY = js_div height (Fin 2);
          r = js_sub (js_div (js_min width height) (Fin 2)) PADDING;
          actualSpokeCount = js_max (Fin (real MINIMUM_SPOKES)) spokeCountHint;
          step = js_div (js_mul (Fin 2) (Fin MATH_PI)) actualSpokeCount
      in \<lparr>centerX = cX, centerY = cY, radius = r, spokeCount = actualSpokeCount,
          angleStep = step\<rparr>)"

text \<open>
  An element of \<open>staticDataPoints\<close>. Its fields \<open>centerX\<close>, \<open>centerY\<close>, \<open>cos\<close> and
  \<open>sin\<close> carry a prime here, since the names are taken by \<open>ChartDimensions\<close> and by the
  functions of HOL.
\<close>

record StaticPoint =
  angle :: jsnum
  maxRadius :: jsnum
  centerX' :: jsnum
  centerY' :: jsnum
  cos' :: jsnum
  sin' :: jsnum

record Point =
  x :: jsnum
  y :: jsnum

text \<open>
  The callback of \<open>normalizedData.map\<close> in \<open>staticDataPoints\<close> (the specification's
  \<open>computeStaticPoint\<close>), applied to one data point and its index. The index is an
  integer below \<open>2^32\<close> and so a double.
\<close>

definition staticDataPoint ::
  "(jsnum \<Rightarrow> jsnum) \<Rightarrow> (jsnum \<Rightarrow> jsnum) \<Rightarrow> ChartDimensions \<Rightarrow> jsnum
     \<Rightarrow> jsnum RadarChartDataPoint \<Rightarrow> nat \<Rightarrow> StaticPoint" where
  "staticDataPoint cosf sinf dims maxValue dataPoint idx =
     (let ang = js_sub (js_mul (Fin (real idx)) (angleStep dims)) (js_div (Fin MATH_PI) (Fin 2));
          clampedValue = js_max (Fin 0) (js_min maxValue (value dataPoint));
          maxPointRadius = js_div (js_mul (radius dims) clampedValue) maxValue
      in \<lparr>angle = ang, maxRadius = maxPointRadius,
          centerX' = centerX dims, centerY' = centerY dims,
          cos' = cosf ang, sin' = sinf ang\<rparr>)"

definition staticDataPoints ::
  "(jsnum \<Rightarrow> jsnum) \<Rightarrow> (jsnum \<Rightarrow> jsnum) \<Rightarrow> ChartDimensions
     \<Rightarrow> jsnum RadarChartDataPoint list \<Rightarrow> jsnum \<Rightarrow> StaticPoint list" where
  "staticDataPoints cosf sinf dims normalized maxValue =
     map (\<lambda>(idx, dataPoint). staticDataPoint cosf sinf dims maxValue dataPoint idx)
       (enumerate 0 normalized)"

text \<open>
  The callback of \<open>staticDataPoints.map\<close> in \<open>dataPoints\<close> (the specification's
  \<open>computeAnimatedPoint\<close>).
\<close>

definition animatedDataPoint :: "jsnum \<Rightarrow> StaticPoint \<Rightarrow> Point" where
  "animatedDataPoint animationProgress sp =
     (let animatedRadius = js_mul (maxRadius sp) animationProgress
      in \<lparr>x = js_add (centerX' sp) (js_mul animatedRadius (cos' sp)),
          y = js_add (centerY' sp) (js_mul animatedRadius (sin' sp))\<rparr>)"

definition dataPoints :: "StaticPoint list \<Rightarrow> jsnum \<Rightarrow> Point list" where
  "dataPoints statics animationProgress = map (animatedDataPoint animationProgress) statics"

text \<open>
  Stand-ins for \<open>Math.cos\<close> and \<open>Math.sin\<close> in the closed examples, which use the angle
  of index 0 only: they return what the usual implementations return at the double nearest
  to \<open>- pi / 2\<close>, which is \<open>6.123233995736766e-17\<close> for the cosine and \<open>-1\<close> for the sine.
\<close>

definition example_cos :: "jsnum \<Rightarrow> jsnum" where
  "example_cos a = Fin (4967757600021511 / 2 ^ 106)"

definition example_sin :: "jsnum \<Rightarrow> jsnum" where
  "example_sin a = Fin (- 1)"

section \<open>Path builder\<close>

text \<open>
  \<open>v.toFixed(2)\<close>. A number that is not finite prints by name. Otherwise the sign (none
  for a zero), then the integer \<open>n\<close> for which \<open>n / 100\<close> is nearest to the exact magnitude
  of \<open>v\<close> (the larger one of two), printed with at least three digits and a point before
  the last two. From \<open>10^21\<close> on, the magnitude is printed by \<open>Number::toString\<close>, the
  parameter \<open>fmt\<close>.
\<close>

definition toFixed2 :: "(real \<Rightarrow> string) \<Rightarrow> jsnum \<Rightarrow> string" where
  "toFixed2 fmt v =
     (case v of
        NaN \<Rightarrow> ''NaN''
      | PosInf \<Rightarrow> ''Infinity''
      | NegInf \<Rightarrow> ''-Infinity''
      | NegZero \<Rightarrow> ''0.00''
      | Fin r \<Rightarrow>
          let s = (if r < 0 then ''-'' else '''');
              a = \<bar>r\<bar>
          in if a \<ge> 10 ^ 21 then s @ fmt a
             else
               let n = nat \<lfloor>a * 100 + 1 / 2\<rfloor>;
                   m = string_of_nat n;
                   m1 = (if length m \<le> 2 then replicate (3 - length m) CHR ''0'' @ m else m);
                   k = length m1
               in s @ take (k - 2) m1 @ ''.'' @ drop (k - 2) m1)"

text \<open>One round of the \<open>for\<close> loop of \<open>radarPath\<close>: the text appended to the path.\<close>

definition curveSegment :: "(real \<Rightarrow> string) \<Rightarrow> Point \<Rightarrow> Point \<Rightarrow> string" where
  "curveSegment fmt current next =
     (let dx = js_sub (x next) (x current);
          dy = js_sub (y next) (y current);
          cp1x = js_add (x current) (js_mul dx CONTROL_POINT_DISTANCE);
          cp1y = js_add (y current) (js_mul dy CONTROL_POINT_DISTANCE);
          cp2x = js_sub (x next) (js_mul dx CONTROL_POINT_DISTANCE);
          cp2y = js_sub (y next) (js_mul dy CONTROL_POINT_DISTANCE)
      in '' C '' @ toFixed2 fmt cp1x @ '' '' @ toFixed2 fmt cp1y @ '', ''
           @ toFixed2 fmt cp2x @ '' '' @ toFixed2 fmt cp2y @ '', ''
           @ toFixed2 fmt (x next) @ '' '' @ toFixed2 fmt (y next))"

function radarPath_for :: "(real \<Rightarrow> string) \<Rightarrow> Point list \<Rightarrow> nat \<Rightarrow> string \<Rightarrow> string" where
  "radarPath_for fmt points i path =
     (if i < length points
      then radarPath_for fmt points (i + 1)
             (path @ curveSegment fmt (points ! i) (points ! ((i + 1) mod length points)))
      else path)"
  by pat_completeness auto
termination
  by (relation "measure (\<lambda>(fmt, points, i, path). length points - i)") auto

declare radarPath_for.simps [simp del]

definition radarPath :: "(real \<Rightarrow> string) \<Rightarrow> Point list \<Rightarrow> string" where
  "radarPath fmt points =
     (if length points = 0 then ''''
      else radarPath_for fmt points 0
             (''M '' @ toFixed2 fmt (x (points ! 0)) @ '' '' @ toFixed2 fmt (y (points ! 0)))
           @ '' Z'')"

text \<open>
  The path as the specification words it (\<open>buildSmoothClosedPath\<close>): a move to the first
  point, one cubic segment for each point and its successor, the successor of the last
  point being the first, with the control points \<open>cp1 = current + delta * d\<close> and
  \<open>cp2 = next - delta * d\<close> for \<open>delta = next - current\<close>, and the closing marker. The
  sums, differences and products are those of doubles.
\<close>

definition spec_point :: "(real \<Rightarrow> string) \<Rightarrow> Point \<Rightarrow> string" where
  "spec_point fmt p = toFixed2 fmt (x p) @ '' '' @ toFixed2 fmt (y p)"

definition spec_curve :: "(real \<Rightarrow> string) \<Rightarrow> jsnum \<Rightarrow> Point \<Rightarrow> Point \<Rightarrow> string" where
  "spec_curve fmt controlPointDistance current next =
     (let delta = \<lparr>x = js_sub (x next) (x current), y = js_sub (y next) (y current)\<rparr>;
          cp1 = \<lparr>x = js_add (x current) (js_mul (x delta) controlPointDistance),
                 y = js_add (y current) (js_mul (y delta) controlPointDistance)\<rparr>;
          cp2 = \<lparr>x = js_sub (x next) (js_mul (x delta) controlPointDistance),
                 y = js_sub (y next) (js_mul (y delta) controlPointDistance)\<rparr>
      in '' C '' @ spec_point fmt cp1 @ '', '' @ spec_point fmt cp2 @ '', ''
           @ spec_point fmt next)"

definition spec_buildSmoothClosedPath ::
  "(real \<Rightarrow> string) \<Rightarrow> Point list \<Rightarrow> jsnum \<Rightarrow> string" where
  "spec_buildSmoothClosedPath fmt points controlPointDistance =
     (if points = [] then ''''
      else ''M '' @ spec_point fmt (hd points)
           @ concat (map (\<lambda>(current, next). spec_curve fmt controlPointDistance current next)
                       (zip points (rotate1 points)))
           @ '' Z'')"


section \<open>Notions for the statements about names\<close>

text \<open>
  An element of the input array whose name the validator records in \<open>seenNames\<close>: an element
  that is present and an object (the first test of the callback), with a name that is a
  string and not empty (the first test of \<open>validateDataPointName\<close>).
\<close>

definition namedPoint :: "jsval option \<Rightarrow> bool" where
  "namedPoint element =
     (case element of
        None \<Rightarrow> False
      | Some point \<Rightarrow>
          truthy point \<and> typeof point = ''object'' \<and>
          truthy (get_prop point ''name'') \<and> typeof (get_prop point ''name'') = ''string'')"

text \<open>
  The processed name that \<open>validateDataPointName\<close> returns for the element at an index;
  it does not depend on the names seen before.
\<close>

definition processedNameOf :: "jsval option \<Rightarrow> nat \<Rightarrow> string" where
  "processedNameOf element idx =
     (case element of
        None \<Rightarrow> []
      | Some point \<Rightarrow> fst (validateDataPointName (get_prop point ''name'') idx {}))"

text \<open>A list of errors has an error \<open>DUPLICATE_NAMES\<close> that carries the index \<open>j\<close>.\<close>

definition duplicateAt :: "ValidationError list \<Rightarrow> nat \<Rightarrow> bool" where
  "duplicateAt es j = (\<exists>e \<in> set es. type e = DUPLICATE_NAMES \<and> index e = Some j)"


section \<open>Properties of rounding\<close>

lemma round_half_even_int [simp]: "round_half_even (of_int n) = n"
  by (simp add: round_half_even_def)

lemma round_half_even_close: "\<bar>of_int (round_half_even t) - t\<bar> \<le> 1 / 2"
  unfolding round_half_even_def Let_def by (auto split: if_splits)

lemma round_half_even_le: "t \<le> of_int m \<Longrightarrow> round_half_even t \<le> m"
  unfolding round_half_even_def Let_def
  apply (auto split: if_splits)
   apply linarith+
  done

lemma round_half_even_ge: "of_int m \<le> t \<Longrightarrow> m \<le> round_half_even t"
  unfolding round_half_even_def Let_def
  apply (auto split: if_splits)
   apply linarith+
  done

lemma ulp_pos [simp]: "0 < ulp r"
  by (simp add: ulp_def)

lemma ulp_nonzero [simp]: "ulp r \<noteq> 0"
  by (simp add: ulp_def)

lemma ulp_nonneg [simp]: "0 \<le> ulp r"
  by (simp add: ulp_def)

lemma ulp_abs [simp]: "\<bar>ulp r\<bar> = ulp r"
  by (simp add: ulp_def)

lemma expo_ge: "- 1022 \<le> expo r"
  by (simp add: expo_def)

lemma expo_normal:
  assumes "2 powr (- 1022) \<le> \<bar>r\<bar>"
  shows "2 powr (of_int (expo r)) \<le> \<bar>r\<bar>" "\<bar>r\<bar> < 2 powr (of_int (expo r) + 1)"
        "expo r = \<lfloor>log 2 \<bar>r\<bar>\<rfloor>"
proof -
  have pos: "0 < \<bar>r\<bar>" using assms by (smt (verit) powr_gt_zero)
  have "- 1022 \<le> \<lfloor>log 2 \<bar>r\<bar>\<rfloor>"
    using assms pos by (simp add: le_floor_iff le_log_iff)
  then show e: "expo r = \<lfloor>log 2 \<bar>r\<bar>\<rfloor>" using pos by (simp add: expo_def)
  from floor_log_eq_powr_iff[OF pos, of 2 "\<lfloor>log 2 \<bar>r\<bar>\<rfloor>"]
  show "2 powr (of_int (expo r)) \<le> \<bar>r\<bar>" "\<bar>r\<bar> < 2 powr (of_int (expo r) + 1)"
    unfolding e by simp_all
qed

lemma expo_subnormal:
  assumes "\<bar>r\<bar> < 2 powr (- 1022)" "r \<noteq> 0"
  shows "expo r = - 1022"
proof -
  have pos: "0 < \<bar>r\<bar>" using assms by simp
  have "log 2 \<bar>r\<bar> < - 1022"
    using assms pos by (simp add: log_less_iff)
  then have "\<lfloor>log 2 \<bar>r\<bar>\<rfloor> < - 1022" by linarith
  then show ?thesis using assms by (simp add: expo_def)
qed

lemma expo_upper:
  assumes "r \<noteq> 0" and "\<bar>r\<bar> < 2 powr (of_int k)" and "- 1021 \<le> k"
  shows "expo r < k"
proof -
  have pos: "0 < \<bar>r\<bar>" using assms by simp
  have "log 2 \<bar>r\<bar> < of_int k"
    using assms pos by (simp add: log_less_iff)
  then have "\<lfloor>log 2 \<bar>r\<bar>\<rfloor> < k" by linarith
  then show ?thesis using assms(1,3) by (simp add: expo_def)
qed

lemma rnd_exact:
  assumes m: "\<bar>m\<bar> < 2 ^ 53" and k: "- 1074 \<le> k"
  shows "rnd (of_int m * 2 powr (of_int k)) = of_int m * 2 powr (of_int k)"
proof (cases "m = 0")
  case True
  then show ?thesis by (simp add: rnd_def)
next
  case False
  let ?y = "of_int m * 2 powr (of_int k) :: real"
  have y0: "?y \<noteq> 0" using False by simp
  have "\<bar>?y\<bar> = of_int \<bar>m\<bar> * 2 powr (of_int k)"
    by (simp add: abs_mult)
  also have "\<dots> < 2 ^ 53 * 2 powr (of_int k)"
    using m by (intro mult_strict_right_mono) (simp_all add: of_int_less_numeral_power_cancel_iff)
  also have "\<dots> = 2 powr (of_int (k + 53))"
    by (simp add: powr_add)
  finally have "\<bar>?y\<bar> < 2 powr (of_int (k + 53))" .
  from expo_upper[OF y0 this] k have e: "expo ?y \<le> k + 52" by simp
  define j where "j = nat (k + 52 - expo ?y)"
  have j: "of_int k - of_int (expo ?y - 52) = (real j)"
    using e by (simp add: j_def)
  have "?y / ulp ?y = of_int m * 2 powr (of_int k - of_int (expo ?y - 52))"
    unfolding ulp_def by (simp add: powr_diff)
  also have "\<dots> = of_int (m * 2 ^ j)"
    unfolding j by (simp add: powr_realpow)
  finally have q: "?y / ulp ?y = of_int (m * 2 ^ j)" .
  have "round_half_even (?y / ulp ?y) = m * 2 ^ j"
    unfolding q by (rule round_half_even_int)
  then have "rnd ?y = of_int (m * 2 ^ j) * ulp ?y"
    using y0 by (simp only: rnd_def if_False)
  also have "\<dots> = ?y / ulp ?y * ulp ?y"
    unfolding q ..
  also have "\<dots> = ?y" by simp
  finally show ?thesis .
qed

lemma rnd_grid:
  assumes "r \<noteq> 0"
  shows "\<bar>round_half_even (r / ulp r)\<bar> \<le> 2 ^ 53"
proof -
  have "\<bar>r\<bar> < 2 powr (of_int (expo r) + 1)"
  proof (cases "2 powr (- 1022) \<le> \<bar>r\<bar>")
    case True
    then show ?thesis by (rule expo_normal)
  next
    case False
    then have e: "expo r = - 1022" using assms by (simp add: expo_subnormal)
    have "(2::real) powr (- 1022) \<le> 2 powr (- 1021)"
      by (intro powr_mono) simp_all
    with False have "\<bar>r\<bar> < 2 powr (- 1021)" by linarith
    then show ?thesis unfolding e by simp
  qed
  then have "\<bar>r\<bar> / ulp r < 2 powr (of_int (expo r) + 1) / ulp r"
    by (simp add: divide_strict_right_mono)
  also have "\<dots> = 2 ^ 53"
    unfolding ulp_def
    by (simp add: powr_diff [symmetric] flip: powr_numeral)
  finally have "\<bar>r / ulp r\<bar> < 2 ^ 53" by (simp add: abs_divide)
  then have b: "r / ulp r \<le> 2 ^ 53" "- (2 ^ 53) \<le> r / ulp r"
    by linarith+
  have "round_half_even (r / ulp r) \<le> 2 ^ 53"
    using b(1) by (intro round_half_even_le) simp
  moreover have "- (2 ^ 53) \<le> round_half_even (r / ulp r)"
    using b(2) by (intro round_half_even_ge) simp
  ultimately show ?thesis by simp
qed

lemma rnd_idem: "rnd (rnd r) = rnd r"
proof (cases "r = 0")
  case True
  then show ?thesis by (simp add: rnd_def)
next
  case False
  define n where "n = round_half_even (r / ulp r)"
  have r: "rnd r = of_int n * 2 powr (of_int (expo r - 52))"
    using False by (simp add: rnd_def n_def ulp_def)
  have n: "\<bar>n\<bar> \<le> 2 ^ 53"
    unfolding n_def using False by (rule rnd_grid)
  have k: "- 1074 \<le> expo r - 52"
    using expo_ge[of r] by simp
  show ?thesis
  proof (cases "\<bar>n\<bar> < 2 ^ 53")
    case True
    then show ?thesis unfolding r using k by (rule rnd_exact)
  next
    case False
    with n have "\<bar>n\<bar> = 2 ^ 53" by simp
    then obtain h :: int where h: "n = 2 * h" "\<bar>h\<bar> = 2 ^ 52"
      by (cases "0 \<le> n") (auto intro: that[of "2 ^ 52"] that[of "- (2 ^ 52)"])
    have "(2::real) powr (of_int (expo r - 51)) = 2 powr (of_int (expo r - 52) + 1)"
      by simp
    also have "\<dots> = 2 powr (of_int (expo r - 52)) * 2"
      by (simp only: powr_add powr_one_eq_one) simp
    finally have "(of_int n :: real) * 2 powr (of_int (expo r - 52))
        = of_int h * 2 powr (of_int (expo r - 51))"
      unfolding h(1) by simp
    moreover have "rnd (of_int h * 2 powr (of_int (expo r - 51))) = of_int h * 2 powr (of_int (expo r - 51))"
      using h(2) k by (intro rnd_exact) simp_all
    ultimately show ?thesis unfolding r by simp
  qed
qed

lemma rnd_error: "\<bar>rnd r - r\<bar> \<le> ulp r / 2"
proof (cases "r = 0")
  case True
  then show ?thesis using ulp_pos[of 0] by (simp add: rnd_def less_imp_le)
next
  case False
  have "\<bar>rnd r - r\<bar> = \<bar>(of_int (round_half_even (r / ulp r)) - r / ulp r) * ulp r\<bar>"
    using False by (simp add: rnd_def left_diff_distrib)
  also have "\<dots> = \<bar>of_int (round_half_even (r / ulp r)) - r / ulp r\<bar> * ulp r"
    by (simp add: abs_mult)
  also have "\<dots> \<le> 1 / 2 * ulp r"
    by (intro mult_right_mono round_half_even_close) simp
  finally show ?thesis by simp
qed

lemma rnd_relative:
  assumes "2 powr (- 1022) \<le> \<bar>r\<bar>"
  shows "\<bar>rnd r - r\<bar> \<le> \<bar>r\<bar> / 2 ^ 53"
proof -
  have "ulp r = 2 powr (of_int (expo r)) / 2 ^ 52"
    unfolding ulp_def by (simp add: powr_diff)
  also have "\<dots> \<le> \<bar>r\<bar> / 2 ^ 52"
    using expo_normal(1)[OF assms] by (simp add: divide_right_mono)
  finally have "ulp r / 2 \<le> \<bar>r\<bar> / 2 ^ 53" by simp
  with rnd_error[of r] show ?thesis by linarith
qed


lemma rnd_eval:
  assumes "2 powr (of_int e) \<le> \<bar>r\<bar>" and "\<bar>r\<bar> < 2 powr (of_int e + 1)" and "- 1022 \<le> e"
  shows "rnd r = of_int (round_half_even (r / 2 powr (of_int (e - 52)))) * 2 powr (of_int (e - 52))"
proof -
  have pos: "0 < \<bar>r\<bar>" using assms(1) by (smt (verit) powr_gt_zero)
  have "\<lfloor>log 2 \<bar>r\<bar>\<rfloor> = e"
    using assms(1,2) pos by (simp add: floor_log_eq_powr_iff)
  then have "expo r = e" using assms(3) pos by (simp add: expo_def)
  then show ?thesis using pos by (simp add: rnd_def ulp_def)
qed

lemma rnd_zero [simp]: "rnd 0 = 0"
  by (simp add: rnd_def)

lemma rnd_eq_zero_imp: "rnd r = 0 \<Longrightarrow> \<bar>r\<bar> < 2 powr (- 1022)"
proof (rule ccontr)
  assume z: "rnd r = 0" and "\<not> \<bar>r\<bar> < 2 powr (- 1022)"
  then have n: "2 powr (- 1022) \<le> \<bar>r\<bar>" by simp
  then have "0 < \<bar>r\<bar>" by (smt (verit) powr_gt_zero)
  moreover from rnd_relative[OF n] z have "\<bar>r\<bar> \<le> \<bar>r\<bar> / 2 ^ 53" by simp
  ultimately show False by (simp add: field_simps)
qed

lemma rnd_int: "\<bar>m\<bar> < 2 ^ 53 \<Longrightarrow> rnd (of_int m) = of_int m"
  using rnd_exact[of m 0] by simp

lemma rnd_numeral [simp]: "numeral w < (2::int) ^ 53 \<Longrightarrow> rnd (numeral w) = numeral w"
  using rnd_int[of "numeral w"] by simp

lemma rnd_one [simp]: "rnd 1 = 1"
  using rnd_int[of 1] by simp

lemma rnd_minus: "rnd (- r) = - rnd r"
proof -
  have h: "round_half_even (- t) = - round_half_even t" for t
  proof -
    have c: "\<lfloor>- t\<rfloor> = - \<lceil>t\<rceil>" by (simp add: ceiling_def)
    show ?thesis
    proof (cases "of_int \<lfloor>t\<rfloor> = t")
      case True
      then obtain k where "t = of_int k" by metis
      then show ?thesis by (simp flip: of_int_minus)
    next
      case False
      then have "\<lceil>t\<rceil> = \<lfloor>t\<rfloor> + 1" by (simp add: ceiling_altdef)
      with c have f: "\<lfloor>- t\<rfloor> = - \<lfloor>t\<rfloor> - 1" by simp
      show ?thesis
        unfolding round_half_even_def Let_def f
        by (auto split: if_splits)
    qed
  qed
  have "expo (- r) = expo r" by (simp add: expo_def)
  then have "ulp (- r) = ulp r" by (simp add: ulp_def)
  then show ?thesis by (simp add: rnd_def h)
qed

lemma ulp_le:
  assumes "r \<noteq> 0" and "\<bar>r\<bar> < 2 powr (of_int k)" and "- 1021 \<le> k"
  shows "ulp r \<le> 2 powr (of_int (k - 53))"
proof -
  have "expo r - 52 \<le> k - 53"
    using expo_upper[OF assms] by simp
  then show ?thesis
    unfolding ulp_def by (intro powr_mono) simp_all
qed

lemma half_ulp_bound: "ulp r / 2 \<le> \<bar>r\<bar> / 2 ^ 53 + 2 powr (- 1075)"
proof (cases "2 powr (- 1022) \<le> \<bar>r\<bar>")
  case True
  have "ulp r = 2 powr (of_int (expo r)) / 2 ^ 52"
    unfolding ulp_def by (simp add: powr_diff)
  also have "\<dots> \<le> \<bar>r\<bar> / 2 ^ 52"
    using expo_normal(1)[OF True] by (simp add: divide_right_mono)
  finally have "ulp r / 2 \<le> \<bar>r\<bar> / 2 ^ 53" by simp
  moreover have "(0::real) \<le> 2 powr (- 1075)" by simp
  ultimately show ?thesis by linarith
next
  case False
  have "expo r = - 1022"
  proof (cases "r = 0")
    case True
    then show ?thesis by (simp add: expo_def)
  next
    case r: False
    with False show ?thesis by (simp add: expo_subnormal)
  qed
  then have "ulp r = 2 powr (- 1074)" by (simp add: ulp_def)
  moreover have "(2::real) powr (- 1074) = 2 * 2 powr (- 1075)"
    using powr_add[of "2::real" 1 "- 1075"] by simp
  ultimately have "ulp r / 2 = 2 powr (- 1075)" by simp
  moreover have "0 \<le> \<bar>r\<bar> / 2 ^ 53" by simp
  ultimately show ?thesis by linarith
qed

lemma rnd_bound:
  assumes "\<bar>r\<bar> \<le> 2 ^ 1023"
  shows "\<bar>rnd r\<bar> < 2 ^ 1024"
proof -
  have "\<bar>rnd r\<bar> \<le> \<bar>r\<bar> + ulp r / 2"
    using rnd_error[of r] by linarith
  also have "\<dots> \<le> \<bar>r\<bar> + (\<bar>r\<bar> / 2 ^ 53 + 2 powr (- 1075))"
    using half_ulp_bound[of r] by linarith
  also have "\<dots> \<le> 2 ^ 1023 + (2 ^ 1023 / 2 ^ 53 + 2 powr (- 1075))"
    using assms by (intro add_mono divide_right_mono) simp_all
  also have "\<dots> < 2 ^ 1024"
  proof -
    have "(2::real) powr (- 1075) \<le> 2 powr 0" by (intro powr_mono) simp_all
    then have "(2::real) powr (- 1075) \<le> 1" by simp
    moreover have "(2::real) ^ 1023 / 2 ^ 53 = 2 ^ 970"
      by (simp add: power_diff[symmetric])
    moreover have "(1::real) \<le> 2 ^ 970" by simp
    moreover have "(2::real) ^ 970 \<le> 2 ^ 1021" by (intro power_increasing) simp_all
    moreover have "(2::real) ^ 1023 = 4 * 2 ^ 1021" "(2::real) ^ 1024 = 8 * 2 ^ 1021"
      by (simp_all add: power_add[of "2::real" 2 1021, simplified] power_add[of "2::real" 3 1021, simplified])
    ultimately show ?thesis by linarith
  qed
  finally show ?thesis .
qed

lemma round64_is_double: "is_double (round64 neg r)"
  by (simp add: round64_def Let_def rnd_idem)

lemma round64_zero: "is_zero (round64 neg 0)"
  by (simp add: round64_def)

lemma round64_finite: "\<bar>r\<bar> \<le> 2 ^ 1023 \<Longrightarrow> is_finite (round64 neg r)"
  using rnd_bound[of r] by (simp add: round64_def Let_def)

lemma round64_double:
  assumes "rnd r = r" and "\<bar>r\<bar> < 2 ^ 1024"
  shows "round64 neg r = (if r = 0 then (if neg then NegZero else Fin 0) else Fin r)"
  using assms by (simp add: round64_def Let_def)

lemma js_div_is_double: "is_double (js_div a b)"
  by (simp add: js_div_def round64_is_double)

lemma js_mul_is_double: "is_double (js_mul a b)"
  by (simp add: js_mul_def round64_is_double)

lemma js_mul_one: "is_double a \<Longrightarrow> js_mul a (Fin 1) = a"
  by (cases a) (auto simp: js_mul_def round64_double)

lemma js_mul_zero_finite: "is_finite a \<Longrightarrow> is_zero b \<Longrightarrow> is_zero (js_mul a b)"
  by (cases a; cases b) (auto simp: js_mul_def round64_def)

lemma js_mul_finite_zero: "is_zero a \<Longrightarrow> is_finite b \<Longrightarrow> is_zero (js_mul a b)"
  by (cases a; cases b) (auto simp: js_mul_def round64_def)

lemma js_add_zero: "is_double a \<Longrightarrow> a \<noteq> NaN \<Longrightarrow> is_zero b \<Longrightarrow> js_eq (js_add a b) a"
  by (cases a; cases b) (auto simp: js_add_def js_eq_def round64_double)

section \<open>Evaluation of roundings\<close>

lemma rnd_dyadic:
  assumes "\<bar>m\<bar> < 2 ^ 53" and "k \<le> 1074"
  shows "rnd (of_int m / 2 ^ k) = of_int m / 2 ^ k"
proof -
  have p: "(2::real) powr (of_int (- int k)) = 1 / 2 ^ k"
    by (simp add: powr_minus powr_realpow inverse_eq_divide)
  have "rnd (of_int m * 2 powr (of_int (- int k))) = of_int m * 2 powr (of_int (- int k))"
    using assms by (intro rnd_exact) simp_all
  then show ?thesis
    unfolding p by simp
qed

lemma round64_exact:
  assumes "rnd r = r" and "r \<noteq> 0" and "\<bar>r\<bar> < 2 ^ 1024"
  shows "round64 neg r = Fin r"
  using assms by (simp add: round64_double)

lemma round64_normal:
  assumes "2 powr (- 1022) \<le> \<bar>r\<bar>" and "\<bar>r\<bar> \<le> 2 ^ 1023"
  shows "round64 neg r = Fin (rnd r)"
proof -
  have "rnd r \<noteq> 0"
    using rnd_eq_zero_imp[of r] assms(1) by auto
  moreover have "\<bar>rnd r\<bar> < 2 ^ 1024"
    using assms(2) by (rule rnd_bound)
  ultimately show ?thesis
    by (simp add: round64_def Let_def)
qed

lemma round64_eval:
  assumes "2 powr (of_int e) \<le> \<bar>r\<bar>" and "\<bar>r\<bar> < 2 powr (of_int e + 1)"
    and "- 1022 \<le> e" and "e \<le> 1021"
  shows "round64 neg r
     = Fin (of_int (round_half_even (r / 2 powr (of_int (e - 52)))) * 2 powr (of_int (e - 52)))"
proof -
  have "(2::real) powr (- 1022) \<le> 2 powr (of_int e)"
    using assms(3) by (intro powr_mono) simp_all
  with assms(1) have low: "2 powr (- 1022) \<le> \<bar>r\<bar>" by linarith
  have "(2::real) powr (of_int e + 1) \<le> 2 powr 1023"
    using assms(4) by (intro powr_mono) simp_all
  also have "\<dots> = 2 ^ 1023"
    by (simp add: powr_realpow[symmetric])
  finally have "\<bar>r\<bar> \<le> 2 ^ 1023"
    using assms(2) by linarith
  with low have "round64 neg r = Fin (rnd r)"
    by (rule round64_normal)
  then show ?thesis
    unfolding rnd_eval[OF assms(1,2,3)] .
qed

section \<open>Evaluation of closed examples\<close>

lemmas validator_defs =
  validateRadarChartData_def initialState_def validatePoint_def validateDataPointName_def
  validateDataPointValue_def maxValueOrDefault_def minValueOrDefault_def
  trim_def isWhiteSpace_def toLowerCase_def number_to_string_def string_of_nat.simps
  digit_def js_gt_def isNaN_def MAX_NAME_LENGTH_def SPECIAL_CHAR_PATTERN_test_def Let_def

lemma toLowerChar_A: "toLowerChar CHR ''A'' = CHR ''a''"
  by code_simp

lemma toLowerChar_a: "toLowerChar CHR ''a'' = CHR ''a''"
  by code_simp

section \<open>The validator, step by step\<close>

lemma validateDataPointName_nonempty:
  "fst (validateDataPointName nm idx seenNames) \<noteq> []"
  by (simp add: validateDataPointName_def Let_def)

lemma js_lt_NaN_right [simp]: "\<not> js_lt v NaN"
  by (cases v) simp_all

lemma validateDataPointValue_not_NaN:
  "fst (validateDataPointValue fmt v idx maxValue minValue) \<noteq> NaN"
  by (cases v) (auto simp: validateDataPointValue_def Let_def js_gt_def isNaN_def)

lemma validatePoint_errors:
  "\<exists>es. st_errors (validatePoint fmt maxValue minValue point idx st) = st_errors st @ es"
  by (simp add: validatePoint_def case_prod_beta)

lemma forEachPoint_errors:
  "\<exists>es. st_errors (forEachPoint fmt maxValue minValue idx points st) = st_errors st @ es"
proof (induction points arbitrary: idx st)
  case Nil
  show ?case by simp
next
  case (Cons element points)
  show ?case
  proof (cases element)
    case None
    with Cons.IH[of "Suc idx" st] show ?thesis by simp
  next
    case (Some point)
    obtain es1 where e1:
      "st_errors (validatePoint fmt maxValue minValue point idx st) = st_errors st @ es1"
      using validatePoint_errors by blast
    obtain es2 where "st_errors (forEachPoint fmt maxValue minValue (Suc idx) points
          (validatePoint fmt maxValue minValue point idx st))
        = st_errors (validatePoint fmt maxValue minValue point idx st) @ es2"
      using Cons.IH by blast
    with e1 Some show ?thesis by simp
  qed
qed

lemma validatePoint_object:
  assumes "truthy point" and "typeof point = ''object''"
  shows "validatePoint fmt maxValue minValue point idx st =
     \<lparr>st_errors = st_errors st
        @ fst (snd (validateDataPointName (get_prop point ''name'') idx (st_seenNames st)))
        @ fst (snd (validateDataPointValue fmt (get_prop point ''value'') idx maxValue minValue)),
      st_warnings = st_warnings st
        @ fst (snd (snd (validateDataPointName (get_prop point ''name'') idx (st_seenNames st))))
        @ snd (snd (validateDataPointValue fmt (get_prop point ''value'') idx maxValue minValue)),
      st_processedData = st_processedData st @
        [\<lparr>name = fst (validateDataPointName (get_prop point ''name'') idx (st_seenNames st)),
          value = fst (validateDataPointValue fmt (get_prop point ''value'') idx maxValue minValue)\<rparr>],
      st_seenNames =
        snd (snd (snd (validateDataPointName (get_prop point ''name'') idx (st_seenNames st))))\<rparr>"
proof -
  have "fst (validateDataPointName (get_prop point ''name'') idx (st_seenNames st)) \<noteq> []"
    by (rule validateDataPointName_nonempty)
  moreover have "\<not> isNaN (fst (validateDataPointValue fmt (get_prop point ''value'') idx maxValue minValue))"
    using validateDataPointValue_not_NaN by (simp add: isNaN_def)
  ultimately show ?thesis
    using assms by (simp add: validatePoint_def case_prod_beta)
qed

lemma validatePoint_no_errors_object:
  assumes "st_errors (validatePoint fmt maxValue minValue point idx st) = []"
  shows "truthy point \<and> typeof point = ''object''"
  using assms by (auto simp: validatePoint_def split: if_splits)

lemma validatePoint_length:
  assumes "st_errors (validatePoint fmt maxValue minValue point idx st) = []"
  shows "length (st_processedData (validatePoint fmt maxValue minValue point idx st))
           = Suc (length (st_processedData st))"
proof -
  have "truthy point" "typeof point = ''object''"
    using validatePoint_no_errors_object[OF assms] by simp_all
  then show ?thesis by (simp add: validatePoint_object)
qed

text \<open>The elements of an array that are present, holes left out.\<close>

lemma forEachPoint_length:
  "st_errors (forEachPoint fmt maxValue minValue idx points st) = [] \<Longrightarrow>
   length (st_processedData (forEachPoint fmt maxValue minValue idx points st))
     = length (st_processedData st) + length (filter (\<lambda>e. e \<noteq> None) points)"
proof (induction points arbitrary: idx st)
  case Nil
  show ?case by simp
next
  case (Cons element points)
  show ?case
  proof (cases element)
    case None
    with Cons.IH[of "Suc idx" st] Cons.prems show ?thesis by simp
  next
    case (Some point)
    let ?st1 = "validatePoint fmt maxValue minValue point idx st"
    have fin: "st_errors (forEachPoint fmt maxValue minValue (Suc idx) points ?st1) = []"
      using Cons.prems Some by simp
    obtain es where
      "st_errors (forEachPoint fmt maxValue minValue (Suc idx) points ?st1) = st_errors ?st1 @ es"
      using forEachPoint_errors by blast
    with fin have e1: "st_errors ?st1 = []" by simp
    have "length (st_processedData (forEachPoint fmt maxValue minValue (Suc idx) points ?st1))
       = length (st_processedData ?st1) + length (filter (\<lambda>e. e \<noteq> None) points)"
      using Cons.IH[OF fin] .
    with validatePoint_length[OF e1] Some show ?thesis by simp
  qed
qed

lemma validateDataPointValue_fst:
  "fst (validateDataPointValue fmt v idx maxValue minValue) =
     (if v = JUndefined \<or> v = JNull \<or> typeof v \<noteq> ''number'' \<or> the_number v = NaN then Fin 0
      else if js_lt (the_number v) minValue then minValue
      else if js_lt maxValue (the_number v) then maxValue
      else the_number v)"
  by (simp add: validateDataPointValue_def Let_def js_gt_def isNaN_def)

lemma validateDataPointValue_errors:
  "fst (snd (validateDataPointValue fmt v idx maxValue minValue)) = [] \<longleftrightarrow>
     (\<exists>n. v = JNum n \<and> n \<noteq> NaN)"
  by (cases v) (auto simp: validateDataPointValue_def Let_def isNaN_def)

lemma clamp_in_range:
  assumes "js_le lo hi" and "n \<noteq> NaN"
  shows "js_le lo (if js_lt n lo then lo else if js_lt hi n then hi else n)
       \<and> js_le (if js_lt n lo then lo else if js_lt hi n then hi else n) hi"
  using assms by (cases n; cases lo; cases hi) (simp_all add: js_le_def)

lemma js_le_trans:
  assumes "js_le a b" and "js_le b c"
  shows "js_le a c"
  using assms by (cases a; cases b; cases c) (simp_all add: js_le_def)

lemma validateDataPointValue_range:
  assumes "js_le minValue maxValue"
      and "fst (snd (validateDataPointValue fmt v idx maxValue minValue)) = []"
  shows "js_le minValue (fst (validateDataPointValue fmt v idx maxValue minValue))
       \<and> js_le (fst (validateDataPointValue fmt v idx maxValue minValue)) maxValue"
proof -
  obtain n where n: "v = JNum n" "n \<noteq> NaN"
    using assms(2) validateDataPointValue_errors by blast
  have "fst (validateDataPointValue fmt v idx maxValue minValue)
      = (if js_lt n minValue then minValue else if js_lt maxValue n then maxValue else n)"
    using n by (simp add: validateDataPointValue_fst)
  then show ?thesis
    using clamp_in_range[OF assms(1) n(2)] by simp
qed

lemma validatePoint_range:
  assumes "js_le minValue maxValue"
      and "st_errors (validatePoint fmt maxValue minValue point idx st) = []"
      and "\<forall>p \<in> set (st_processedData st). js_le minValue (value p) \<and> js_le (value p) maxValue"
  shows "\<forall>p \<in> set (st_processedData (validatePoint fmt maxValue minValue point idx st)).
           js_le minValue (value p) \<and> js_le (value p) maxValue"
proof -
  have obj: "truthy point" "typeof point = ''object''"
    using validatePoint_no_errors_object[OF assms(2)] by simp_all
  have "fst (snd (validateDataPointValue fmt (get_prop point ''value'') idx maxValue minValue)) = []"
    using assms(2) by (simp add: validatePoint_object[OF obj])
  from validateDataPointValue_range[OF assms(1) this] assms(3)
  show ?thesis by (simp add: validatePoint_object[OF obj])
qed

lemma forEachPoint_range:
  assumes "js_le minValue maxValue"
  shows "st_errors (forEachPoint fmt maxValue minValue idx points st) = [] \<Longrightarrow>
     \<forall>p \<in> set (st_processedData st). js_le minValue (value p) \<and> js_le (value p) maxValue \<Longrightarrow>
     \<forall>p \<in> set (st_processedData (forEachPoint fmt maxValue minValue idx points st)).
        js_le minValue (value p) \<and> js_le (value p) maxValue"
proof (induction points arbitrary: idx st)
  case Nil
  then show ?case by simp
next
  case (Cons element points)
  show ?case
  proof (cases element)
    case None
    with Cons.IH[of "Suc idx" st] Cons.prems show ?thesis by simp
  next
    case (Some point)
    let ?st1 = "validatePoint fmt maxValue minValue point idx st"
    have fin: "st_errors (forEachPoint fmt maxValue minValue (Suc idx) points ?st1) = []"
      using Cons.prems(1) Some by simp
    obtain es where
      "st_errors (forEachPoint fmt maxValue minValue (Suc idx) points ?st1) = st_errors ?st1 @ es"
      using forEachPoint_errors by blast
    with fin have e1: "st_errors ?st1 = []" by simp
    have "\<forall>p \<in> set (st_processedData ?st1). js_le minValue (value p) \<and> js_le (value p) maxValue"
      using validatePoint_range[OF assms e1 Cons.prems(2)] .
    from Cons.IH[OF fin this] Some show ?thesis by simp
  qed
qed

lemma validate_not_array:
  "\<not> isArray raw \<Longrightarrow> validateRadarChartData fmt raw maxValueArg minValueArg =
     \<lparr>isValid = False,
      errors = [\<lparr>type = MISSING_DATA, message = NO_DATA_MESSAGE, field = None, index = None\<rparr>],
      warnings = [], processedData = None\<rparr>"
  by (simp add: validateRadarChartData_def)

lemma validate_empty_array:
  "validateRadarChartData fmt (JArr []) maxValueArg minValueArg =
     \<lparr>isValid = False,
      errors = [\<lparr>type = EMPTY_VALUES, message = EMPTY_DATA_MESSAGE, field = None, index = None\<rparr>],
      warnings = [], processedData = None\<rparr>"
  by (simp add: validateRadarChartData_def)

lemma validate_array:
  "points \<noteq> [] \<Longrightarrow> validateRadarChartData fmt (JArr points) maxValueArg minValueArg =
     (let st = forEachPoint fmt (maxValueOrDefault maxValueArg) (minValueOrDefault minValueArg)
                 0 points initialState;
          errors1 = st_errors st @
                 (if length (st_processedData st) = 0 then
                    [\<lparr>type = EMPTY_VALUES,
                      message = ''No valid data points found after processing'',
                      field = None, index = None\<rparr>]
                  else []);
          valid = (length errors1 = 0 \<and> length (st_processedData st) > 0)
      in \<lparr>isValid = valid, errors = errors1, warnings = st_warnings st,
          processedData = (if valid then Some (st_processedData st) else None)\<rparr>)"
  by (simp add: validateRadarChartData_def)


lemma raw_cases:
  obtains (array) points where "raw = JArr points" "points \<noteq> []"
  | (empty) "raw = JArr []"
  | (other) "\<not> isArray raw"
  by (cases raw) auto

lemma validate_isValid:
  "isValid (validateRadarChartData fmt raw maxValueArg minValueArg) \<longleftrightarrow>
     (\<exists>points. raw = JArr points \<and> points \<noteq> [] \<and>
        st_errors (forEachPoint fmt (maxValueOrDefault maxValueArg) (minValueOrDefault minValueArg)
           0 points initialState) = [] \<and>
        st_processedData (forEachPoint fmt (maxValueOrDefault maxValueArg)
           (minValueOrDefault minValueArg) 0 points initialState) \<noteq> [])"
proof (cases raw rule: raw_cases)
  case (array points)
  then show ?thesis by (simp add: validate_array Let_def)
next
  case empty
  then show ?thesis by (simp add: validate_empty_array)
next
  case other
  then show ?thesis by (auto simp add: validate_not_array)
qed


lemma validate_processedData_iff:
  "processedData (validateRadarChartData fmt raw maxValueArg minValueArg) \<noteq> None \<longleftrightarrow>
     isValid (validateRadarChartData fmt raw maxValueArg minValueArg)"
proof (cases raw rule: raw_cases)
  case (array points)
  then show ?thesis by (simp add: validate_array Let_def)
next
  case empty
  then show ?thesis by (simp add: validate_empty_array)
next
  case other
  then show ?thesis by (simp add: validate_not_array)
qed

lemma validate_processedData_valid:
  assumes "isValid (validateRadarChartData fmt (JArr points) maxValueArg minValueArg)"
  shows "processedData (validateRadarChartData fmt (JArr points) maxValueArg minValueArg) =
     Some (st_processedData (forEachPoint fmt (maxValueOrDefault maxValueArg)
           (minValueOrDefault minValueArg) 0 points initialState))"
proof -
  have "points \<noteq> []"
    using assms unfolding validate_isValid by simp
  then show ?thesis
    using assms by (simp add: validate_array Let_def split: if_splits)
qed

section \<open>Properties of the validator\<close>

text \<open>
  C1, as amended. For every raw input and every \<open>maxValue\<close> and \<open>minValue\<close> (given or
  defaulted), \<open>processedData\<close> is defined if and only if \<open>isValid\<close> is true, and a valid
  result has at least one processed point. The values are clamped to
  \<open>[minValue, maxValue]\<close>, not to \<open>[0, maxValue]\<close>: whenever \<open>minValue \<le> maxValue\<close>, every
  processed value of a valid result lies in \<open>[minValue, maxValue]\<close>, and so in
  \<open>[0, maxValue]\<close> when \<open>0 \<le> minValue\<close> as well (the default \<open>minValue\<close> is \<open>0\<close>).
\<close>

theorem validate_range:
  "(processedData (validateRadarChartData fmt raw maxValueArg minValueArg) \<noteq> None
      \<longleftrightarrow> isValid (validateRadarChartData fmt raw maxValueArg minValueArg)) \<and>
   (isValid (validateRadarChartData fmt raw maxValueArg minValueArg) \<longrightarrow>
      (\<exists>ps. processedData (validateRadarChartData fmt raw maxValueArg minValueArg) = Some ps
         \<and> 1 \<le> length ps
         \<and> (js_le (minValueOrDefault minValueArg) (maxValueOrDefault maxValueArg) \<longrightarrow>
              (\<forall>p \<in> set ps. js_le (minValueOrDefault minValueArg) (value p)
                            \<and> js_le (value p) (maxValueOrDefault maxValueArg)))
         \<and> (js_le (Fin 0) (minValueOrDefault minValueArg)
              \<and> js_le (minValueOrDefault minValueArg) (maxValueOrDefault maxValueArg) \<longrightarrow>
              (\<forall>p \<in> set ps. js_le (Fin 0) (value p)
                            \<and> js_le (value p) (maxValueOrDefault maxValueArg)))))"
proof (intro conjI impI)
  show "processedData (validateRadarChartData fmt raw maxValueArg minValueArg) \<noteq> None
      \<longleftrightarrow> isValid (validateRadarChartData fmt raw maxValueArg minValueArg)"
    by (rule validate_processedData_iff)
next
  let ?lo = "minValueOrDefault minValueArg" and ?hi = "maxValueOrDefault maxValueArg"
  assume v: "isValid (validateRadarChartData fmt raw maxValueArg minValueArg)"
  then obtain points where pts: "raw = JArr points" "points \<noteq> []"
     "st_errors (forEachPoint fmt ?hi ?lo 0 points initialState) = []"
     "st_processedData (forEachPoint fmt ?hi ?lo 0 points initialState) \<noteq> []"
    unfolding validate_isValid by blast
  let ?ps = "st_processedData (forEachPoint fmt ?hi ?lo 0 points initialState)"
  have 1: "processedData (validateRadarChartData fmt raw maxValueArg minValueArg) = Some ?ps"
    using v unfolding pts(1) by (rule validate_processedData_valid)
  have 2: "1 \<le> length ?ps"
    using pts(4) by (simp add: Suc_le_eq)
  have 3: "\<forall>p \<in> set ?ps. js_le ?lo (value p) \<and> js_le (value p) ?hi" if le: "js_le ?lo ?hi"
    by (rule forEachPoint_range[OF le pts(3)]) (simp add: initialState_def)
  have 4: "\<forall>p \<in> set ?ps. js_le (Fin 0) (value p) \<and> js_le (value p) ?hi"
    if "js_le (Fin 0) ?lo \<and> js_le ?lo ?hi"
    using that 3 js_le_trans by blast
  from 1 2 3 4
  show "\<exists>ps. processedData (validateRadarChartData fmt raw maxValueArg minValueArg) = Some ps
         \<and> 1 \<le> length ps
         \<and> (js_le ?lo ?hi \<longrightarrow> (\<forall>p \<in> set ps. js_le ?lo (value p) \<and> js_le (value p) ?hi))
         \<and> (js_le (Fin 0) ?lo \<and> js_le ?lo ?hi \<longrightarrow>
              (\<forall>p \<in> set ps. js_le (Fin 0) (value p) \<and> js_le (value p) ?hi))"
    by blast
qed

text \<open>
  The theorem at \<open>[{name:"A", value:7}]\<close> with \<open>maxValue = 5\<close> and the default
  \<open>minValue\<close>: the result is valid, \<open>0 \<le> 0 \<le> 5\<close>, and the processed values lie in
  \<open>[0, 5]\<close>.
\<close>

theorem validate_range_witness:
  "isValid (validateRadarChartData no_format
      (JArr [Some (JObj [(''name'', JStr ''A''), (''value'', JNum (Fin 7))])]) (Some (Fin 5)) None)
   \<and> js_le (Fin 0) (minValueOrDefault None)
   \<and> js_le (minValueOrDefault None) (maxValueOrDefault (Some (Fin 5)))
   \<and> (\<exists>ps. processedData (validateRadarChartData no_format
          (JArr [Some (JObj [(''name'', JStr ''A''), (''value'', JNum (Fin 7))])]) (Some (Fin 5)) None)
            = Some ps
         \<and> 1 \<le> length ps
         \<and> (\<forall>p \<in> set ps. js_le (Fin 0) (value p) \<and> js_le (value p) (Fin 5)))"
proof -
  have v: "isValid (validateRadarChartData no_format
      (JArr [Some (JObj [(''name'', JStr ''A''), (''value'', JNum (Fin 7))])]) (Some (Fin 5)) None)"
    by (simp add: validator_defs toLowerChar_A)
  have le: "js_le (minValueOrDefault None) (maxValueOrDefault (Some (Fin 5)))"
    by (simp add: minValueOrDefault_def maxValueOrDefault_def js_le_def)
  have le0: "js_le (Fin 0) (minValueOrDefault None)"
    by (simp add: minValueOrDefault_def js_le_def)
  have d: "maxValueOrDefault (Some (Fin 5)) = Fin 5"
    by (simp add: maxValueOrDefault_def)
  from validate_range[of no_format
      "JArr [Some (JObj [(''name'', JStr ''A''), (''value'', JNum (Fin 7))])]" "Some (Fin 5)" None]
    v le le0
  show ?thesis unfolding d by blast
qed

text \<open>
  C1 as stated fails: for \<open>[{name:"A", value:-3}]\<close> with \<open>maxValue = 5\<close> and
  \<open>minValue = -5\<close> the result is valid and its processed value is \<open>-3\<close>, below \<open>0\<close>.
\<close>

theorem validate_range_counterexample:
  "isValid (validateRadarChartData no_format
      (JArr [Some (JObj [(''name'', JStr ''A''), (''value'', JNum (Fin (- 3)))])])
      (Some (Fin 5)) (Some (Fin (- 5))))
   \<and> processedData (validateRadarChartData no_format
      (JArr [Some (JObj [(''name'', JStr ''A''), (''value'', JNum (Fin (- 3)))])])
      (Some (Fin 5)) (Some (Fin (- 5))))
     = Some [\<lparr>name = ''A'', value = Fin (- 3)\<rparr>]
   \<and> \<not> js_le (Fin 0) (Fin (- 3))"
  by (simp add: validator_defs toLowerChar_A js_le_def)

text \<open>
  C2: what the code does with a name that is the empty string. The first test of
  \<open>validateDataPointName\<close>, \<open>!name || typeof name !== "string"\<close>, is true of it, so the
  name is reported as the error \<open>INVALID_DATA_TYPE\<close> and no \<open>EMPTY_NAME\<close> warning is
  given, at every index and for every set of seen names; the input
  \<open>[{name:"", value:1}]\<close> is therefore invalid.
\<close>

theorem empty_name_is_type_error:
  "validateDataPointName (JStr '''') idx seenNames =
     (''Category '' @ string_of_nat (idx + 1),
      [\<lparr>type = INVALID_DATA_TYPE,
        message = ''Name at index '' @ string_of_nat idx @ '' is missing or not a string'',
        field = Some ''name'', index = Some idx\<rparr>],
      [], seenNames)
   \<and> validateRadarChartData fmt
       (JArr [Some (JObj [(''name'', JStr ''''), (''value'', JNum (Fin 1))])]) None None
     = \<lparr>isValid = False,
        errors = [\<lparr>type = INVALID_DATA_TYPE,
                   message = ''Name at index 0 is missing or not a string'',
                   field = Some ''name'', index = Some 0\<rparr>],
        warnings = [], processedData = None\<rparr>"
  by (simp add: validator_defs)

theorem empty_name_is_type_error_witness:
  "validateRadarChartData no_format
       (JArr [Some (JObj [(''name'', JStr ''''), (''value'', JNum (Fin 1))])]) None None
     = \<lparr>isValid = False,
        errors = [\<lparr>type = INVALID_DATA_TYPE,
                   message = ''Name at index 0 is missing or not a string'',
                   field = Some ''name'', index = Some 0\<rparr>],
        warnings = [], processedData = None\<rparr>"
  using empty_name_is_type_error[of 0 "{}" no_format] by simp

text \<open>
  The other names behave as the specification says: a name of white space only (a string that is not empty and trims
  to the empty string) gives the warning \<open>EMPTY_NAME\<close> and no error of type
  \<open>INVALID_DATA_TYPE\<close>, and a name that is not a string gives that error; both take the
  default name.
\<close>

lemma blank_name_is_warned:
  assumes "s \<noteq> []" and "trim s = []"
  shows "fst (validateDataPointName (JStr s) idx seenNames)
           = ''Category '' @ string_of_nat (idx + 1)"
    and "\<lparr>type = EMPTY_NAME,
          message = ''Name at index '' @ string_of_nat idx @ '' is empty after trimming'',
          field = Some ''name'', index = Some idx\<rparr>
         \<in> set (fst (snd (snd (validateDataPointName (JStr s) idx seenNames))))"
    and "\<forall>e \<in> set (fst (snd (validateDataPointName (JStr s) idx seenNames))).
           type e \<noteq> INVALID_DATA_TYPE"
  using assms by (simp_all add: validateDataPointName_def Let_def)

lemma non_string_name_is_type_error:
  assumes "typeof nm \<noteq> ''string''"
  shows "validateDataPointName nm idx seenNames =
     (''Category '' @ string_of_nat (idx + 1),
      [\<lparr>type = INVALID_DATA_TYPE,
        message = ''Name at index '' @ string_of_nat idx @ '' is missing or not a string'',
        field = Some ''name'', index = Some idx\<rparr>],
      [], seenNames)"
  using assms by (simp add: validateDataPointName_def)

section \<open>Duplicate names\<close>

lemma validateDataPointName_fst:
  "fst (validateDataPointName nm idx seenNames) = fst (validateDataPointName nm idx {})"
  by (simp add: validateDataPointName_def Let_def)

lemma validateDataPointName_seen:
  "snd (snd (snd (validateDataPointName nm idx seenNames))) =
     (if truthy nm \<and> typeof nm = ''string''
      then insert (toLowerCase (fst (validateDataPointName nm idx {}))) seenNames
      else seenNames)"
  by (auto simp add: validateDataPointName_def Let_def)

lemma validateDataPointName_duplicateAt:
  "duplicateAt (fst (snd (validateDataPointName nm idx seenNames))) k \<longleftrightarrow>
     k = idx \<and> truthy nm \<and> typeof nm = ''string'' \<and>
     toLowerCase (fst (validateDataPointName nm idx {})) \<in> seenNames"
  by (auto simp add: validateDataPointName_def duplicateAt_def Let_def)

lemma validateDataPointValue_no_duplicateAt:
  "\<not> duplicateAt (fst (snd (validateDataPointValue fmt v idx maxValue minValue))) k"
  by (auto simp add: validateDataPointValue_def duplicateAt_def Let_def)

lemma duplicateAt_append:
  "duplicateAt (es @ fs) k \<longleftrightarrow> duplicateAt es k \<or> duplicateAt fs k"
  by (auto simp add: duplicateAt_def)

lemma validatePoint_seenNames:
  "st_seenNames (validatePoint fmt maxValue minValue point idx st) =
     (if namedPoint (Some point)
      then insert (toLowerCase (processedNameOf (Some point) idx)) (st_seenNames st)
      else st_seenNames st)"
proof (cases "truthy point \<and> typeof point = ''object''")
  case True
  then show ?thesis
    by (simp add: validatePoint_object validateDataPointName_seen namedPoint_def
        processedNameOf_def)
next
  case False
  then show ?thesis
    by (auto simp add: validatePoint_def namedPoint_def)
qed

lemma validatePoint_duplicateAt:
  "duplicateAt (st_errors (validatePoint fmt maxValue minValue point idx st)) k \<longleftrightarrow>
     duplicateAt (st_errors st) k \<or>
     (k = idx \<and> namedPoint (Some point) \<and>
      toLowerCase (processedNameOf (Some point) idx) \<in> st_seenNames st)"
proof (cases "truthy point \<and> typeof point = ''object''")
  case True
  then show ?thesis
    by (simp add: validatePoint_object duplicateAt_append validateDataPointName_duplicateAt
        validateDataPointValue_no_duplicateAt namedPoint_def processedNameOf_def)
next
  case False
  then have "validatePoint fmt maxValue minValue point idx st =
      st\<lparr>st_errors := st_errors st @
          [\<lparr>type = INVALID_DATA_TYPE,
            message = ''Data point at index '' @ string_of_nat idx @ '' is not a valid object'',
            field = None, index = Some idx\<rparr>]\<rparr>"
    by (auto simp add: validatePoint_def)
  moreover have "\<not> namedPoint (Some point)"
    using False by (auto simp add: namedPoint_def)
  ultimately show ?thesis
    by (simp add: duplicateAt_append) (simp add: duplicateAt_def)
qed

text \<open>The loop adds no error at an index that it has passed.\<close>

lemma forEachPoint_duplicateAt_before:
  "k < idx \<Longrightarrow>
     duplicateAt (st_errors (forEachPoint fmt maxValue minValue idx points st)) k
       \<longleftrightarrow> duplicateAt (st_errors st) k"
proof (induction points arbitrary: idx st)
  case Nil
  show ?case by simp
next
  case (Cons element points)
  from Cons.prems have less: "k < Suc idx" by simp
  show ?case
  proof (cases element)
    case None
    with Cons.IH[OF less, of st] show ?thesis by simp
  next
    case (Some point)
    from Cons.prems have "k \<noteq> idx" by simp
    with Cons.IH[OF less, of "validatePoint fmt maxValue minValue point idx st"] Some
    show ?thesis by (simp add: validatePoint_duplicateAt)
  qed
qed

text \<open>
  The invariant of the loop: the element at position \<open>j\<close> of the rest of the array gets an
  error \<open>DUPLICATE_NAMES\<close> if and only if it is a named point whose processed name, in lower
  case, was seen before the loop or is that of an earlier named point of the rest.
\<close>

lemma forEachPoint_duplicateAt:
  assumes "j < length points"
    and "\<not> duplicateAt (st_errors st) (idx + j)"
  shows "duplicateAt (st_errors (forEachPoint fmt maxValue minValue idx points st)) (idx + j)
     \<longleftrightarrow> namedPoint (points ! j) \<and>
         (toLowerCase (processedNameOf (points ! j) (idx + j)) \<in> st_seenNames st \<or>
          (\<exists>i<j. namedPoint (points ! i) \<and>
             toLowerCase (processedNameOf (points ! i) (idx + i))
               = toLowerCase (processedNameOf (points ! j) (idx + j))))"
  using assms
proof (induction points arbitrary: idx st j)
  case Nil
  then show ?case by simp
next
  case (Cons element points)
  define st1 where "st1 =
    (case element of None \<Rightarrow> st | Some point \<Rightarrow> validatePoint fmt maxValue minValue point idx st)"
  have run: "forEachPoint fmt maxValue minValue idx (element # points) st
      = forEachPoint fmt maxValue minValue (Suc idx) points st1"
    by (cases element) (simp_all add: st1_def)
  have seen: "st_seenNames st1 =
      (if namedPoint element
       then insert (toLowerCase (processedNameOf element idx)) (st_seenNames st)
       else st_seenNames st)"
    by (cases element) (simp_all add: st1_def validatePoint_seenNames namedPoint_def)
  have dup: "duplicateAt (st_errors st1) k \<longleftrightarrow>
      duplicateAt (st_errors st) k \<or>
      (k = idx \<and> namedPoint element \<and>
       toLowerCase (processedNameOf element idx) \<in> st_seenNames st)" for k
    by (cases element) (simp_all add: st1_def validatePoint_duplicateAt namedPoint_def)
  show ?case
  proof (cases j)
    case 0
    have "duplicateAt (st_errors (forEachPoint fmt maxValue minValue (Suc idx) points st1)) idx
        \<longleftrightarrow> duplicateAt (st_errors st1) idx"
      by (rule forEachPoint_duplicateAt_before) simp
    with Cons.prems(2) 0 show ?thesis
      by (simp add: run dup)
  next
    case (Suc j')
    from Cons.prems(1) Suc have j': "j' < length points" by simp
    from Cons.prems(2) Suc have "\<not> duplicateAt (st_errors st1) (Suc idx + j')"
      by (simp add: dup)
    note IH = Cons.IH[OF j' this]
    have mem: "s \<in> st_seenNames st1 \<longleftrightarrow>
        s \<in> st_seenNames st \<or> (namedPoint element \<and> toLowerCase (processedNameOf element idx) = s)"
      for s
      by (auto simp add: seen)
    have ex: "(\<exists>i<Suc j'. P i) \<longleftrightarrow> P 0 \<or> (\<exists>i<j'. P (Suc i))" for P
      by (metis less_Suc_eq_0_disj)
    have "duplicateAt (st_errors (forEachPoint fmt maxValue minValue (Suc idx) points st1))
        (Suc (idx + j'))
      \<longleftrightarrow> namedPoint (points ! j') \<and>
         (toLowerCase (processedNameOf (points ! j') (Suc (idx + j'))) \<in> st_seenNames st \<or>
          (namedPoint element \<and> toLowerCase (processedNameOf element idx)
             = toLowerCase (processedNameOf (points ! j') (Suc (idx + j')))) \<or>
          (\<exists>i<j'. namedPoint (points ! i) \<and>
             toLowerCase (processedNameOf (points ! i) (Suc (idx + i)))
               = toLowerCase (processedNameOf (points ! j') (Suc (idx + j')))))"
      using IH by (simp add: mem)
    then show ?thesis
      unfolding run Suc by (simp add: ex)
  qed
qed

lemma forEachPoint_names:
  assumes "\<forall>e \<in> set points. \<exists>p. e = Some p \<and> truthy p \<and> typeof p = ''object''"
  shows "map name (st_processedData (forEachPoint fmt maxValue minValue idx points st))
     = map name (st_processedData st)
       @ map (\<lambda>(i, e). processedNameOf e i) (enumerate idx points)"
  using assms
proof (induction points arbitrary: idx st)
  case Nil
  show ?case by simp
next
  case (Cons element points)
  from Cons.prems obtain p where p: "element = Some p" "truthy p" "typeof p = ''object''"
    by auto
  from Cons.prems have rest: "\<forall>e \<in> set points. \<exists>p. e = Some p \<and> truthy p \<and> typeof p = ''object''"
    by simp
  have "name \<lparr>name = fst (validateDataPointName (get_prop p ''name'') idx (st_seenNames st)),
         value = v\<rparr> = processedNameOf (Some p) idx" for v :: jsnum
    using validateDataPointName_fst[of "get_prop p ''name''" idx "st_seenNames st"]
    by (simp add: processedNameOf_def)
  with Cons.IH[OF rest, of "Suc idx" "validatePoint fmt maxValue minValue p idx st"] p
  show ?case
    by (simp add: validatePoint_object)
qed

lemma validate_duplicateAt:
  assumes "j < length points"
  shows "duplicateAt (errors (validateRadarChartData fmt (JArr points) maxValueArg minValueArg)) j
     \<longleftrightarrow> duplicateAt (st_errors (forEachPoint fmt (maxValueOrDefault maxValueArg)
            (minValueOrDefault minValueArg) 0 points initialState)) j"
proof -
  from assms have "points \<noteq> []" by auto
  then show ?thesis
    by (simp add: validate_array Let_def duplicateAt_append) (simp add: duplicateAt_def)
qed

lemma validate_errors_invalid:
  assumes "errors (validateRadarChartData fmt raw maxValueArg minValueArg) \<noteq> []"
  shows "\<not> isValid (validateRadarChartData fmt raw maxValueArg minValueArg)
     \<and> processedData (validateRadarChartData fmt raw maxValueArg minValueArg) = None"
proof -
  have "\<not> isValid (validateRadarChartData fmt raw maxValueArg minValueArg)"
  proof
    assume "isValid (validateRadarChartData fmt raw maxValueArg minValueArg)"
    then obtain points where p: "raw = JArr points" "points \<noteq> []"
      "st_errors (forEachPoint fmt (maxValueOrDefault maxValueArg) (minValueOrDefault minValueArg)
           0 points initialState) = []"
      "st_processedData (forEachPoint fmt (maxValueOrDefault maxValueArg)
           (minValueOrDefault minValueArg) 0 points initialState) \<noteq> []"
      unfolding validate_isValid by blast
    have "errors (validateRadarChartData fmt raw maxValueArg minValueArg) = []"
      unfolding p(1) validate_array[OF p(2)] Let_def using p(3,4) by simp
    with assms show False by simp
  qed
  then show ?thesis
    using validate_processedData_iff[of fmt raw maxValueArg minValueArg] by simp
qed

lemma processedNameOf_string:
  assumes "get_prop point ''name'' = JStr s" and "trim s \<noteq> []"
  shows "processedNameOf (Some point) idx = trim s"
proof -
  from assms(2) have "s \<noteq> []" by (auto simp add: trim_def)
  with assms show ?thesis
    by (simp add: processedNameOf_def validateDataPointName_def Let_def)
qed

lemma toLowerChar_B: "toLowerChar CHR ''B'' = CHR ''b''"
  by code_simp

text \<open>
  C3: duplicate names are detected without regard to case, and the error is reported at
  the later index. For every array and every position \<open>j\<close> of it, the result has an error
  \<open>DUPLICATE_NAMES\<close> with index \<open>j\<close> if and only if the element at \<open>j\<close> is a named point and
  an earlier named point has a processed name that is equal to its own after \<open>toLowerCase\<close>;
  so the first occurrence of a name never gets the error. An error makes the result
  invalid, without processed data. Inside the loop every point is processed under its own
  name, which is the trimmed name when that is a string with a character other than white
  space: the earlier occurrence keeps its name. For \<open>[{name:"A", value:1}, {name:"a",
  value:2}]\<close> with the default \<open>maxValue\<close> and \<open>minValue\<close>, the result is invalid, has no
  processed data, and its only error is \<open>DUPLICATE_NAMES\<close> at index 1, while both points
  are processed under their own names; the names \<open>A\<close> and \<open>B\<close> are no duplicates.
\<close>

theorem duplicate_names:
  "(\<forall>j < length points.
      duplicateAt (errors (validateRadarChartData fmt (JArr points) maxValueArg minValueArg)) j
      \<longleftrightarrow> namedPoint (points ! j) \<and>
          (\<exists>i<j. namedPoint (points ! i) \<and>
             toLowerCase (processedNameOf (points ! i) i)
               = toLowerCase (processedNameOf (points ! j) j)))
   \<and> (\<forall>j. duplicateAt (errors (validateRadarChartData fmt (JArr points) maxValueArg minValueArg)) j
         \<longrightarrow> \<not> isValid (validateRadarChartData fmt (JArr points) maxValueArg minValueArg)
           \<and> processedData (validateRadarChartData fmt (JArr points) maxValueArg minValueArg)
               = None)
   \<and> ((\<forall>e \<in> set points. \<exists>p. e = Some p \<and> truthy p \<and> typeof p = ''object'') \<longrightarrow>
        map name (st_processedData (forEachPoint fmt (maxValueOrDefault maxValueArg)
           (minValueOrDefault minValueArg) 0 points initialState))
        = map (\<lambda>(i, e). processedNameOf e i) (enumerate 0 points))
   \<and> (\<forall>point s idx. get_prop point ''name'' = JStr s \<and> trim s \<noteq> [] \<longrightarrow>
         processedNameOf (Some point) idx = trim s)
   \<and> validateRadarChartData fmt
       (JArr [Some (JObj [(''name'', JStr ''A''), (''value'', JNum (Fin 1))]),
              Some (JObj [(''name'', JStr ''a''), (''value'', JNum (Fin 2))])]) None None
     = \<lparr>isValid = False,
        errors = [\<lparr>type = DUPLICATE_NAMES,
                   message = ''Duplicate name '' @ [CHR 0x22] @ ''a'' @ [CHR 0x22]
                     @ '' found at index 1'',
                   field = Some ''name'', index = Some 1\<rparr>],
        warnings = [], processedData = None\<rparr>
   \<and> st_processedData (forEachPoint fmt (Fin 5) (Fin 0) 0
       [Some (JObj [(''name'', JStr ''A''), (''value'', JNum (Fin 1))]),
        Some (JObj [(''name'', JStr ''a''), (''value'', JNum (Fin 2))])] initialState)
     = [\<lparr>name = ''A'', value = Fin 1\<rparr>, \<lparr>name = ''a'', value = Fin 2\<rparr>]
   \<and> validateRadarChartData fmt
       (JArr [Some (JObj [(''name'', JStr ''A''), (''value'', JNum (Fin 1))]),
              Some (JObj [(''name'', JStr ''B''), (''value'', JNum (Fin 2))])]) None None
     = \<lparr>isValid = True, errors = [], warnings = [],
        processedData = Some [\<lparr>name = ''A'', value = Fin 1\<rparr>, \<lparr>name = ''B'', value = Fin 2\<rparr>]\<rparr>"
proof -
  have general: "duplicateAt
        (errors (validateRadarChartData fmt (JArr points) maxValueArg minValueArg)) j
      \<longleftrightarrow> namedPoint (points ! j) \<and>
          (\<exists>i<j. namedPoint (points ! i) \<and>
             toLowerCase (processedNameOf (points ! i) i)
               = toLowerCase (processedNameOf (points ! j) j))"
    if j: "j < length points" for j
  proof -
    have "\<not> duplicateAt (st_errors initialState) (0 + j)"
      by (simp add: initialState_def duplicateAt_def)
    from forEachPoint_duplicateAt[OF j this, of fmt "maxValueOrDefault maxValueArg"
        "minValueOrDefault minValueArg"]
    show ?thesis
      unfolding validate_duplicateAt[OF j] by (simp add: initialState_def)
  qed
  have invalid: "\<not> isValid (validateRadarChartData fmt (JArr points) maxValueArg minValueArg)
           \<and> processedData (validateRadarChartData fmt (JArr points) maxValueArg minValueArg)
               = None"
    if "duplicateAt (errors (validateRadarChartData fmt (JArr points) maxValueArg minValueArg)) j"
    for j
  proof -
    from that have
      "errors (validateRadarChartData fmt (JArr points) maxValueArg minValueArg) \<noteq> []"
      by (auto simp add: duplicateAt_def)
    then show ?thesis by (rule validate_errors_invalid)
  qed
  have names: "map name (st_processedData (forEachPoint fmt (maxValueOrDefault maxValueArg)
           (minValueOrDefault minValueArg) 0 points initialState))
        = map (\<lambda>(i, e). processedNameOf e i) (enumerate 0 points)"
    if "\<forall>e \<in> set points. \<exists>p. e = Some p \<and> truthy p \<and> typeof p = ''object''"
    using forEachPoint_names[OF that, of fmt "maxValueOrDefault maxValueArg"
        "minValueOrDefault minValueArg" 0 initialState]
    by (simp add: initialState_def)
  have trimmed: "processedNameOf (Some point) idx = trim s"
    if "get_prop point ''name'' = JStr s \<and> trim s \<noteq> []" for point s idx
    using that by (simp add: processedNameOf_string)
  have s1: "validateRadarChartData fmt
       (JArr [Some (JObj [(''name'', JStr ''A''), (''value'', JNum (Fin 1))]),
              Some (JObj [(''name'', JStr ''a''), (''value'', JNum (Fin 2))])]) None None
     = \<lparr>isValid = False,
        errors = [\<lparr>type = DUPLICATE_NAMES,
                   message = ''Duplicate name '' @ [CHR 0x22] @ ''a'' @ [CHR 0x22]
                     @ '' found at index 1'',
                   field = Some ''name'', index = Some 1\<rparr>],
        warnings = [], processedData = None\<rparr>"
    by (simp add: validator_defs toLowerChar_A toLowerChar_a)
  have s2: "st_processedData (forEachPoint fmt (Fin 5) (Fin 0) 0
       [Some (JObj [(''name'', JStr ''A''), (''value'', JNum (Fin 1))]),
        Some (JObj [(''name'', JStr ''a''), (''value'', JNum (Fin 2))])] initialState)
     = [\<lparr>name = ''A'', value = Fin 1\<rparr>, \<lparr>name = ''a'', value = Fin 2\<rparr>]"
    by (simp add: validator_defs toLowerChar_A toLowerChar_a)
  have s3: "validateRadarChartData fmt
       (JArr [Some (JObj [(''name'', JStr ''A''), (''value'', JNum (Fin 1))]),
              Some (JObj [(''name'', JStr ''B''), (''value'', JNum (Fin 2))])]) None None
     = \<lparr>isValid = True, errors = [], warnings = [],
        processedData = Some [\<lparr>name = ''A'', value = Fin 1\<rparr>, \<lparr>name = ''B'', value = Fin 2\<rparr>]\<rparr>"
    by (simp add: validator_defs toLowerChar_A toLowerChar_B)
  from general invalid names trimmed s1 s2 s3 show ?thesis
    by (intro conjI allI impI) blast+
qed

theorem duplicate_names_witness:
  "duplicateAt (errors (validateRadarChartData no_format
     (JArr [Some (JObj [(''name'', JStr ''Sales''), (''value'', JNum (Fin 1))]),
            Some (JObj [(''name'', JStr ''Costs''), (''value'', JNum (Fin 2))]),
            Some (JObj [(''name'', JStr '' SALES ''), (''value'', JNum (Fin 3))])]) None None)) 2
   \<and> \<not> duplicateAt (errors (validateRadarChartData no_format
     (JArr [Some (JObj [(''name'', JStr ''Sales''), (''value'', JNum (Fin 1))]),
            Some (JObj [(''name'', JStr ''Costs''), (''value'', JNum (Fin 2))]),
            Some (JObj [(''name'', JStr '' SALES ''), (''value'', JNum (Fin 3))])]) None None)) 1
   \<and> \<not> duplicateAt (errors (validateRadarChartData no_format
     (JArr [Some (JObj [(''name'', JStr ''Sales''), (''value'', JNum (Fin 1))]),
            Some (JObj [(''name'', JStr ''Costs''), (''value'', JNum (Fin 2))]),
            Some (JObj [(''name'', JStr '' SALES ''), (''value'', JNum (Fin 3))])]) None None)) 0"
proof -
  let ?points = "[Some (JObj [(''name'', JStr ''Sales''), (''value'', JNum (Fin 1))]),
            Some (JObj [(''name'', JStr ''Costs''), (''value'', JNum (Fin 2))]),
            Some (JObj [(''name'', JStr '' SALES ''), (''value'', JNum (Fin 3))])]"
  note general = duplicate_names[of ?points no_format None None, THEN conjunct1, rule_format]
  have n0: "processedNameOf (?points ! 0) 0 = ''Sales''"
    by (simp add: processedNameOf_def validateDataPointName_def trim_def isWhiteSpace_def Let_def)
  have n1: "processedNameOf (?points ! 1) 1 = ''Costs''"
    by (simp add: processedNameOf_def validateDataPointName_def trim_def isWhiteSpace_def Let_def)
  have n2: "processedNameOf (?points ! 2) 2 = ''SALES''"
    by (simp add: processedNameOf_def validateDataPointName_def trim_def isWhiteSpace_def Let_def)
  have l0: "toLowerCase ''Sales'' = ''sales''" by code_simp
  have l1: "toLowerCase ''Costs'' = ''costs''" by code_simp
  have l2: "toLowerCase ''SALES'' = ''sales''" by code_simp
  have named: "namedPoint (?points ! 0)" "namedPoint (?points ! 1)" "namedPoint (?points ! 2)"
    by (simp_all add: namedPoint_def)
  have ex1: "(\<exists>i<Suc 0. P i) \<longleftrightarrow> P 0" for P :: "nat \<Rightarrow> bool"
    by simp
  have ex2: "(\<exists>i<2. P i) \<longleftrightarrow> P 0 \<or> P (Suc 0)" for P :: "nat \<Rightarrow> bool"
    by (auto simp add: less_2_cases_iff)
  have "duplicateAt (errors (validateRadarChartData no_format (JArr ?points) None None)) 2"
    using general[of 2] named n0 n1 n2 l0 l1 l2 by (simp add: ex2)
  moreover
  have "\<not> duplicateAt (errors (validateRadarChartData no_format (JArr ?points) None None)) 1"
    using general[of 1] named n0 n1 n2 l0 l1 l2 by (simp add: ex1)
  moreover
  have "\<not> duplicateAt (errors (validateRadarChartData no_format (JArr ?points) None None)) 0"
    using general[of 0] by simp
  ultimately show ?thesis by simp
qed

text \<open>
  C4: for \<open>[{name:"A", value:7}]\<close> with \<open>maxValue = 5\<close>, the result is valid, its only
  warning is \<open>DATA_CLAMPED\<close> at index 0 with a message that holds the original value 7
  and the clamped value 5, and the processed value is 5.
\<close>

theorem clamped_scenario:
  "validateRadarChartData fmt
     (JArr [Some (JObj [(''name'', JStr ''A''), (''value'', JNum (Fin 7))])]) (Some (Fin 5)) None
   = \<lparr>isValid = True,
      errors = [],
      warnings = [\<lparr>type = DATA_CLAMPED,
                   message = ''Value 7 at index 0 is above maximum (5) and will be clamped'',
                   field = Some ''value'', index = Some 0\<rparr>],
      processedData = Some [\<lparr>name = ''A'', value = Fin 5\<rparr>]\<rparr>"
  by (simp add: validator_defs toLowerChar_A)

theorem clamped_scenario_witness:
  "validateRadarChartData no_format
     (JArr [Some (JObj [(''name'', JStr ''A''), (''value'', JNum (Fin 7))])]) (Some (Fin 5)) None
   = \<lparr>isValid = True,
      errors = [],
      warnings = [\<lparr>type = DATA_CLAMPED,
                   message = ''Value 7 at index 0 is above maximum (5) and will be clamped'',
                   field = Some ''value'', index = Some 0\<rparr>],
      processedData = Some [\<lparr>name = ''A'', value = Fin 5\<rparr>]\<rparr>"
  using clamped_scenario[of no_format] by simp

text \<open>
  C5, as amended. The clamping of \<open>validateDataPointValue\<close> is idempotent on every finite
  value whenever \<open>maxValue\<close> is not below \<open>minValue\<close>: validating the processed value again,
  with the same bounds, returns it unchanged.
\<close>

theorem clamp_idempotent:
  assumes "\<not> js_lt maxValue minValue"
  shows "fst (validateDataPointValue fmt
            (JNum (fst (validateDataPointValue fmt (JNum (Fin r)) idx maxValue minValue)))
            idx maxValue minValue)
         = fst (validateDataPointValue fmt (JNum (Fin r)) idx maxValue minValue)"
  using assms
  by (cases maxValue; cases minValue) (simp_all add: validateDataPointValue_fst)

theorem clamp_idempotent_witness:
  "\<not> js_lt (Fin 5) (Fin 0)
   \<and> fst (validateDataPointValue no_format (JNum (Fin 7)) 0 (Fin 5) (Fin 0)) = Fin 5
   \<and> fst (validateDataPointValue no_format
            (JNum (fst (validateDataPointValue no_format (JNum (Fin 7)) 0 (Fin 5) (Fin 0))))
            0 (Fin 5) (Fin 0)) = Fin 5"
proof -
  have h: "\<not> js_lt (Fin 5) (Fin 0)" by simp
  have v: "fst (validateDataPointValue no_format (JNum (Fin 7)) 0 (Fin 5) (Fin 0)) = Fin 5"
    by (simp add: validateDataPointValue_fst)
  from clamp_idempotent[OF h, of no_format 7 0] h v show ?thesis by simp
qed

text \<open>
  C5 as stated fails when \<open>minValue\<close> is above \<open>maxValue\<close>: with \<open>minValue = 5\<close> and
  \<open>maxValue = 1\<close> the value 3 is clamped to 5, and 5 is clamped to 1.
\<close>

theorem clamp_idempotent_counterexample:
  "fst (validateDataPointValue no_format (JNum (Fin 3)) 0 (Fin 1) (Fin 5)) = Fin 5
   \<and> fst (validateDataPointValue no_format
            (JNum (fst (validateDataPointValue no_format (JNum (Fin 3)) 0 (Fin 1) (Fin 5))))
            0 (Fin 1) (Fin 5)) = Fin 1"
  by (simp add: validateDataPointValue_fst)

text \<open>
  C10, as amended. When the validation of an array succeeds, the processed data has exactly
  as many points as the array has elements that are present: \<open>forEach\<close> passes over the
  holes of a sparse array, and every element it visits gives one point. For an array
  without holes that is the length of the array.
\<close>

theorem valid_keeps_length:
  assumes "isValid (validateRadarChartData fmt (JArr points) maxValueArg minValueArg)"
  shows "\<exists>ps. processedData (validateRadarChartData fmt (JArr points) maxValueArg minValueArg)
            = Some ps
      \<and> length ps = length (filter (\<lambda>e. e \<noteq> None) points)
      \<and> ((\<forall>e \<in> set points. e \<noteq> None) \<longrightarrow> length ps = length points)"
proof -
  let ?st = "forEachPoint fmt (maxValueOrDefault maxValueArg) (minValueOrDefault minValueArg)
               0 points initialState"
  have e: "st_errors ?st = []"
    using assms unfolding validate_isValid by simp
  have "processedData (validateRadarChartData fmt (JArr points) maxValueArg minValueArg)
          = Some (st_processedData ?st)"
    using assms by (rule validate_processedData_valid)
  moreover have l: "length (st_processedData ?st) = length (filter (\<lambda>e. e \<noteq> None) points)"
    using forEachPoint_length[OF e] by (simp add: initialState_def)
  moreover have "length (st_processedData ?st) = length points"
    if "\<forall>e \<in> set points. e \<noteq> None"
  proof -
    from that have "filter (\<lambda>e. e \<noteq> None) points = points"
      by (simp add: filter_id_conv)
    with l show ?thesis by simp
  qed
  ultimately show ?thesis by blast
qed

theorem valid_keeps_length_witness:
  "isValid (validateRadarChartData no_format
      (JArr [Some (JObj [(''name'', JStr ''A''), (''value'', JNum (Fin 7))])]) (Some (Fin 5)) None)
   \<and> (\<exists>ps. processedData (validateRadarChartData no_format
          (JArr [Some (JObj [(''name'', JStr ''A''), (''value'', JNum (Fin 7))])])
          (Some (Fin 5)) None)
            = Some ps
         \<and> length ps = 1)"
proof -
  have v: "isValid (validateRadarChartData no_format
      (JArr [Some (JObj [(''name'', JStr ''A''), (''value'', JNum (Fin 7))])]) (Some (Fin 5)) None)"
    by (simp add: validator_defs toLowerChar_A)
  from valid_keeps_length[OF v] v show ?thesis by simp
qed

text \<open>
  C10 as stated fails on a sparse array: \<open>[ , {name:"A", value:1}]\<close> has length 2, its
  validation succeeds, and the processed data has one point.
\<close>

theorem valid_keeps_length_counterexample:
  "isValid (validateRadarChartData no_format
      (JArr [None, Some (JObj [(''name'', JStr ''A''), (''value'', JNum (Fin 1))])]) None None)
   \<and> processedData (validateRadarChartData no_format
      (JArr [None, Some (JObj [(''name'', JStr ''A''), (''value'', JNum (Fin 1))])]) None None)
     = Some [\<lparr>name = ''A'', value = Fin 1\<rparr>]
   \<and> length [None, Some (JObj [(''name'', JStr ''A''), (''value'', JNum (Fin 1))])] = 2"
  by (simp add: validator_defs toLowerChar_A)

section \<open>Properties of the normalizer\<close>

lemma normalizedData_while_eq:
  "normalizedData_while processed =
     processed @ map (\<lambda>n. \<lparr>name = ''Point '' @ string_of_nat (n + 1), value = 0\<rparr>)
                   [length processed..<MINIMUM_SPOKES]"
proof (induction processed rule: normalizedData_while.induct)
  case (1 processed)
  show ?case
  proof (cases "length processed < MINIMUM_SPOKES")
    case True
    then have "[length processed..<MINIMUM_SPOKES]
        = length processed # [Suc (length processed)..<MINIMUM_SPOKES]"
      by (simp add: upt_conv_Cons)
    with True 1 show ?thesis
      by (subst normalizedData_while.simps) simp
  next
    case False
    then show ?thesis
      by (subst normalizedData_while.simps) simp
  qed
qed

text \<open>
  C6: \<open>normalizedData\<close> returns \<open>max (length points) 5\<close> points. The first
  \<open>length points\<close> of them are the input, unchanged and in order; the others are the
  points \<open>{name: "Point n", value: 0}\<close>, \<open>n\<close> being the position of the point counted
  from 1. For two input points the appended points are \<open>Point 3\<close>, \<open>Point 4\<close> and
  \<open>Point 5\<close>.
\<close>

theorem normalizedData_pads:
  "length (normalizedData points) = max (length points) 5
   \<and> take (length points) (normalizedData points) = points
   \<and> drop (length points) (normalizedData points)
       = map (\<lambda>n. \<lparr>name = ''Point '' @ string_of_nat (n + 1), value = 0\<rparr>) [length points..<5]
   \<and> normalizedData [\<lparr>name = ''A'', value = 1::real\<rparr>, \<lparr>name = ''B'', value = 2\<rparr>]
       = [\<lparr>name = ''A'', value = 1\<rparr>, \<lparr>name = ''B'', value = 2\<rparr>,
          \<lparr>name = ''Point 3'', value = 0\<rparr>, \<lparr>name = ''Point 4'', value = 0\<rparr>,
          \<lparr>name = ''Point 5'', value = 0\<rparr>]"
proof (intro conjI)
  show "length (normalizedData points) = max (length points) 5"
    by (simp add: normalizedData_def normalizedData_while_eq MINIMUM_SPOKES_def)
  show "take (length points) (normalizedData points) = points"
    by (simp add: normalizedData_def normalizedData_while_eq)
  show "drop (length points) (normalizedData points)
       = map (\<lambda>n. \<lparr>name = ''Point '' @ string_of_nat (n + 1), value = 0\<rparr>) [length points..<5]"
    by (simp add: normalizedData_def normalizedData_while_eq MINIMUM_SPOKES_def)
  show "normalizedData [\<lparr>name = ''A'', value = 1::real\<rparr>, \<lparr>name = ''B'', value = 2\<rparr>]
       = [\<lparr>name = ''A'', value = 1\<rparr>, \<lparr>name = ''B'', value = 2\<rparr>,
          \<lparr>name = ''Point 3'', value = 0\<rparr>, \<lparr>name = ''Point 4'', value = 0\<rparr>,
          \<lparr>name = ''Point 5'', value = 0\<rparr>]"
    by (simp add: normalizedData_def normalizedData_while_eq MINIMUM_SPOKES_def upt_conv_Cons
          string_of_nat.simps digit_def)
qed

theorem normalizedData_pads_witness:
  "length (normalizedData [\<lparr>name = ''A'', value = 1::real\<rparr>]) = 5
   \<and> take 1 (normalizedData [\<lparr>name = ''A'', value = 1::real\<rparr>]) = [\<lparr>name = ''A'', value = 1\<rparr>]"
  using normalizedData_pads[of "[\<lparr>name = ''A'', value = 1::real\<rparr>]"] by simp


text \<open>For doubles the appended points have the value \<open>+0\<close>.\<close>

lemma normalizedData_doubles:
  "drop (length points) (normalizedData (points :: jsnum RadarChartDataPoint list))
     = map (\<lambda>n. \<lparr>name = ''Point '' @ string_of_nat (n + 1), value = Fin 0\<rparr>)
         [length points..<5]"
  by (simp add: normalizedData_def normalizedData_while_eq zero_jsnum_def MINIMUM_SPOKES_def)

section \<open>Properties of the dimensions\<close>

lemma MATH_PI_bounds: "3 < MATH_PI" "MATH_PI < 4"
  by (simp_all add: MATH_PI_def)

lemma two_pi: "js_mul (Fin 2) (Fin MATH_PI) = Fin (2 * MATH_PI)"
proof -
  have e: "2 * MATH_PI = of_int 884279719003555 / 2 ^ 47"
    by (simp add: MATH_PI_def)
  have "rnd (2 * MATH_PI) = 2 * MATH_PI"
    unfolding e by (rule rnd_dyadic) simp_all
  moreover have "\<bar>2 * MATH_PI\<bar> < 2 ^ 1024"
  proof -
    have "\<bar>2 * MATH_PI\<bar> < 8" using MATH_PI_bounds by simp
    also have "(8::real) \<le> 2 ^ 1024"
      using power_increasing[of 3 1024 "2::real"] by simp
    finally show ?thesis .
  qed
  moreover have "2 * MATH_PI \<noteq> 0" using MATH_PI_bounds by simp
  ultimately have "round64 False (2 * MATH_PI) = Fin (2 * MATH_PI)"
    by (simp add: round64_exact)
  then show ?thesis
    using MATH_PI_bounds by (simp add: js_mul_def)
qed

text \<open>
  The angle step times a finite number of spokes, both operations rounded: the product is
  within the relative error \<open>2^-51\<close> of \<open>2 * Math.PI\<close>.
\<close>

lemma angleStep_times_spokeCount:
  assumes n: "5 \<le> n" "n < 2 ^ 1024"
  shows "\<exists>a p. js_div (Fin (2 * MATH_PI)) (Fin n) = Fin a
     \<and> js_mul (Fin a) (Fin n) = Fin p
     \<and> \<bar>p - 2 * MATH_PI\<bar> \<le> 2 * MATH_PI / 2 ^ 51"
proof -
  define T where "T = 2 * MATH_PI"
  have T: "6 < T" "T < 8" using MATH_PI_bounds by (simp_all add: T_def)
  have npos: "0 < n" using n by simp
  define q where "q = T / n"
  have qpos: "0 < q" using T npos by (simp add: q_def)
  have small: "(2::real) powr (- 1022) = 1 / 2 ^ 1022"
    by (simp add: powr_minus powr_realpow[symmetric] divide_simps)
  have "1 / 2 ^ 1022 * n < 1 / 2 ^ 1022 * (2 ^ 1024 :: real)"
    using n by (intro mult_strict_left_mono) simp_all
  also have "\<dots> = 4"
    by (simp add: power_diff[symmetric] divide_simps power_add[of "2::real" 2 1022, simplified])
  finally have "1 / 2 ^ 1022 * n < T" using T by linarith
  then have qlow: "2 powr (- 1022) \<le> \<bar>q\<bar>"
    using npos unfolding small q_def by (simp add: field_simps)
  have qhigh: "q < 2"
    using n T by (simp add: q_def field_simps)
  have big: "(16::real) \<le> 2 ^ 1023"
    using power_increasing[of 4 1023 "2::real"] by simp
  have "\<bar>q\<bar> \<le> 2 ^ 1023" using qhigh qpos big by linarith
  with qlow have dq: "round64 False q = Fin (rnd q)"
    by (rule round64_normal)
  define a where "a = rnd q"
  have aerr: "\<bar>a - q\<bar> \<le> q / 2 ^ 53"
    using rnd_relative[OF qlow] qpos by (simp add: a_def)
  have div: "js_div (Fin (2 * MATH_PI)) (Fin n) = Fin a"
    using npos T dq by (simp add: js_div_def T_def q_def a_def)
  have an: "\<bar>a * n - T\<bar> \<le> T / 2 ^ 53"
  proof -
    have "a * n - T = (a - q) * n"
      using npos by (simp add: q_def field_simps)
    then have "\<bar>a * n - T\<bar> = \<bar>a - q\<bar> * n"
      using npos by (simp add: abs_mult)
    also have "\<dots> \<le> q / 2 ^ 53 * n"
      using aerr npos by (intro mult_right_mono) simp_all
    also have "\<dots> = T / 2 ^ 53"
      using npos by (simp add: q_def)
    finally show ?thesis .
  qed
  have e53: "(1::real) / 2 ^ 53 \<le> 1 / 2" 
    using power_increasing[of 1 53 "2::real"] by (simp add: field_simps)
  have Te: "T / 2 ^ 53 \<le> T / 2"
    using T e53 mult_left_mono[of "1 / 2 ^ 53" "1 / 2" T] by simp
  have "\<bar>a * n - T\<bar> \<le> T / 2"
    using an Te by linarith
  then have anlow: "3 < a * n" and anhigh: "a * n < 12"
    using T by linarith+
  have "(2::real) powr (- 1022) \<le> 2 powr 0"
    by (intro powr_mono) simp_all
  then have plow: "2 powr (- 1022) \<le> \<bar>a * n\<bar>"
    using anlow by simp
  have "\<bar>a * n\<bar> \<le> 2 ^ 1023" using anlow anhigh big by linarith
  with plow have dp: "round64 False (a * n) = Fin (rnd (a * n))"
    by (rule round64_normal)
  have "0 < a * n" using anlow by linarith
  then have apos: "0 < a"
    using npos by (simp add: zero_less_mult_iff)
  have mul: "js_mul (Fin a) (Fin n) = Fin (rnd (a * n))"
    using npos apos dp by (simp add: js_mul_def)
  have perr: "\<bar>rnd (a * n) - a * n\<bar> \<le> a * n / 2 ^ 53"
    using rnd_relative[OF plow] anlow by simp
  have "a * n \<le> T + T / 2 ^ 53"
    using an by linarith
  then have "a * n / 2 ^ 53 \<le> (T + T / 2 ^ 53) / 2 ^ 53"
    by (intro divide_right_mono) simp_all
  also have "\<dots> \<le> (T + T) / 2 ^ 53"
    using T e53 mult_left_mono[of "1 / 2 ^ 53" "1" T] by (intro divide_right_mono) simp_all
  finally have "\<bar>rnd (a * n) - a * n\<bar> \<le> (T + T) / 2 ^ 53"
    using perr by linarith
  with an have "\<bar>rnd (a * n) - T\<bar> \<le> T / 2 ^ 53 + (T + T) / 2 ^ 53"
    by linarith
  also have "\<dots> \<le> T / 2 ^ 51"
    using T by (simp add: field_simps)
  finally have "\<bar>rnd (a * n) - 2 * MATH_PI\<bar> \<le> 2 * MATH_PI / 2 ^ 51"
    by (simp add: T_def)
  with div mul show ?thesis by blast
qed

lemma small_less_huge: "numeral w < (2::real) ^ 53 \<Longrightarrow> numeral w < (2::real) ^ 1024"
proof -
  assume "numeral w < (2::real) ^ 53"
  also have "(2::real) ^ 53 \<le> 2 ^ 1024" by (intro power_increasing) simp_all
  finally show ?thesis .
qed

lemma is_double_numeral: "numeral w < (2::int) ^ 53 \<Longrightarrow> is_double (Fin (numeral w))"
proof -
  assume w: "numeral w < (2::int) ^ 53"
  then have "real_of_int (numeral w) < real_of_int (2 ^ 53)"
    by (simp only: of_int_less_iff)
  then have "numeral w < (2::real) ^ 53" by simp
  then have "numeral w < (2::real) ^ 1024" by (rule small_less_huge)
  with w show ?thesis by simp
qed

lemma round64_numeral:
  "numeral w < (2::int) ^ 53 \<Longrightarrow> round64 neg (numeral w) = Fin (numeral w)"
  using is_double_numeral[of w] by (simp add: round64_exact)

lemma js_max_5:
  assumes "is_double hint" and "js_max (Fin 5) hint = Fin n"
  shows "5 \<le> n" and "n < 2 ^ 1024"
proof -
  have five: "(5::real) < 2 ^ 1024"
    by (rule small_less_huge) simp
  from assms have "5 \<le> n \<and> n < 2 ^ 1024"
    using five by (cases hint) (auto simp add: js_max_def split: if_splits)
  then show "5 \<le> n" and "n < 2 ^ 1024" by simp_all
qed

lemma js_max_5_le: "hint \<noteq> NaN \<Longrightarrow> js_le (Fin 5) (js_max (Fin 5) hint)"
  by (cases hint) (auto simp add: js_max_def js_le_def)

lemma useChartDimensions_eq:
  "useChartDimensions width height spokeCountHint =
     \<lparr>centerX = js_div width (Fin 2), centerY = js_div height (Fin 2),
      radius = js_sub (js_div (js_min width height) (Fin 2)) (Fin 60),
      spokeCount = js_max (Fin 5) spokeCountHint,
      angleStep = js_div (Fin (2 * MATH_PI)) (js_max (Fin 5) spokeCountHint)\<rparr>"
  by (simp add: useChartDimensions_def Let_def PADDING_def MINIMUM_SPOKES_def two_pi)

lemma quarter_pi: "js_div (Fin (2 * MATH_PI)) (Fin 8) = Fin (MATH_PI / 4)"
proof -
  have e: "2 * MATH_PI / 8 = of_int 884279719003555 / 2 ^ 50"
    by (simp add: MATH_PI_def)
  have "rnd (2 * MATH_PI / 8) = 2 * MATH_PI / 8"
    unfolding e by (rule rnd_dyadic) simp_all
  moreover have "\<bar>2 * MATH_PI / 8\<bar> < 2 ^ 1024"
  proof -
    have "\<bar>2 * MATH_PI / 8\<bar> < 8" using MATH_PI_bounds by simp
    also have "(8::real) \<le> 2 ^ 1024"
      using power_increasing[of 3 1024 "2::real"] by simp
    finally show ?thesis .
  qed
  moreover have "2 * MATH_PI / 8 \<noteq> 0" using MATH_PI_bounds by simp
  ultimately have "round64 False (2 * MATH_PI / 8) = Fin (2 * MATH_PI / 8)"
    by (simp add: round64_exact)
  then show ?thesis
    using MATH_PI_bounds by (simp add: js_div_def)
qed

lemma quarter_pi_times_8: "js_mul (Fin (MATH_PI / 4)) (Fin 8) = Fin (2 * MATH_PI)"
proof -
  have e: "MATH_PI / 4 * 8 = of_int 884279719003555 / 2 ^ 47"
    by (simp add: MATH_PI_def)
  have "rnd (MATH_PI / 4 * 8) = MATH_PI / 4 * 8"
    unfolding e by (rule rnd_dyadic) simp_all
  moreover have "\<bar>MATH_PI / 4 * 8\<bar> < 2 ^ 1024"
  proof -
    have "\<bar>MATH_PI / 4 * 8\<bar> < 8" using MATH_PI_bounds by simp
    also have "(8::real) \<le> 2 ^ 1024"
      using power_increasing[of 3 1024 "2::real"] by simp
    finally show ?thesis .
  qed
  moreover have "MATH_PI / 4 * 8 \<noteq> 0" using MATH_PI_bounds by simp
  ultimately have "round64 False (MATH_PI / 4 * 8) = Fin (MATH_PI / 4 * 8)"
    by (simp add: round64_exact)
  then show ?thesis
    using MATH_PI_bounds by (simp add: js_mul_def)
qed

lemma dimensions_400_400_8:
  "useChartDimensions (Fin 400) (Fin 400) (Fin 8)
     = \<lparr>centerX = Fin 200, centerY = Fin 200, radius = Fin 140, spokeCount = Fin 8,
        angleStep = Fin (MATH_PI / 4)\<rparr>"
proof -
  have "js_div (Fin 400) (Fin 2) = Fin 200"
    by (simp add: js_div_def round64_numeral)
  moreover have "js_min (Fin 400) (Fin 400) = Fin 400"
    by (simp add: js_min_def)
  moreover have "js_sub (Fin 200) (Fin 60) = Fin 140"
    by (simp add: js_sub_def js_add_def round64_numeral)
  moreover have "js_max (Fin 5) (Fin 8) = Fin 8"
    by (simp add: js_max_def)
  ultimately show ?thesis
    by (simp add: useChartDimensions_eq quarter_pi)
qed

lemma step_25:
  "js_div (Fin (2 * MATH_PI)) (Fin 25) = Fin (2263756080649101 / 2 ^ 53)"
proof -
  have "round64 False (2 * MATH_PI / 25)
      = Fin (of_int (round_half_even (2 * MATH_PI / 25 / 2 powr (of_int (- 2 - 52))))
          * 2 powr (of_int (- 2 - 52)))"
    by (rule round64_eval) (simp_all add: powr_neg_numeral MATH_PI_def)
  also have "\<dots> = Fin (2263756080649101 / 2 ^ 53)"
    by (simp add: powr_neg_numeral round_half_even_def MATH_PI_def)
  finally show ?thesis
    using MATH_PI_bounds by (simp add: js_div_def)
qed

lemma step_25_times_25:
  "js_mul (Fin (2263756080649101 / 2 ^ 53)) (Fin 25) = Fin (7074237752028441 / 2 ^ 50)"
proof -
  have "round64 False (2263756080649101 / 2 ^ 53 * 25)
      = Fin (of_int (round_half_even (2263756080649101 / 2 ^ 53 * 25 / 2 powr (of_int (2 - 52))))
          * 2 powr (of_int (2 - 52)))"
    by (rule round64_eval) (simp_all add: powr_neg_numeral)
  also have "\<dots> = Fin (7074237752028441 / 2 ^ 50)"
    by (simp add: powr_neg_numeral round_half_even_def)
  finally show ?thesis
    by (simp add: js_mul_def)
qed

text \<open>
  \<open>Math.PI\<close> is the double nearest to \<open>pi\<close>. The bounds on \<open>pi\<close> come from Machin's formula and
  the alternating series of the arc tangent, whose partial sums lie below and above the
  limit in turn.
\<close>

lemma arctan_partial_sums:
  fixes t :: real
  assumes "0 < t" and "t \<le> 1"
  shows "(\<Sum>i<2 * n. (- 1) ^ i * (1 / real (i * 2 + 1) * t ^ (i * 2 + 1))) \<le> arctan t"
    and "arctan t \<le> (\<Sum>i<2 * n + 1. (- 1) ^ i * (1 / real (i * 2 + 1) * t ^ (i * 2 + 1)))"
proof -
  have abs: "\<bar>t\<bar> \<le> 1" using assms by simp
  have pos: "0 < 1 / real (0 * 2 + 1) * t ^ (0 * 2 + 1)" using assms by simp
  from summable_Leibniz(2)[OF zeroseq_arctan_series[OF abs] monoseq_arctan_series[OF abs]] pos
  have "(\<Sum>i. (- 1) ^ i * (1 / real (i * 2 + 1) * t ^ (i * 2 + 1)))
          \<in> {\<Sum>i<2 * n. (- 1) ^ i * (1 / real (i * 2 + 1) * t ^ (i * 2 + 1)) ..
             \<Sum>i<2 * n + 1. (- 1) ^ i * (1 / real (i * 2 + 1) * t ^ (i * 2 + 1))}"
    by blast
  then show "(\<Sum>i<2 * n. (- 1) ^ i * (1 / real (i * 2 + 1) * t ^ (i * 2 + 1))) \<le> arctan t"
    and "arctan t \<le> (\<Sum>i<2 * n + 1. (- 1) ^ i * (1 / real (i * 2 + 1) * t ^ (i * 2 + 1)))"
    unfolding arctan_series[OF abs] by simp_all
qed

lemma pi_bounds:
  "(7074237752028440 - 1 / 2) / 2 ^ 51 < pi" "pi < (7074237752028440 + 1 / 2) / 2 ^ 51"
proof -
  have l5: "(\<Sum>i<2 * 6. (- 1) ^ i * (1 / real (i * 2 + 1) * (1 / 5) ^ (i * 2 + 1))) \<le> arctan (1 / 5)"
    by (rule arctan_partial_sums) simp_all
  have u5: "arctan (1 / 5) \<le> (\<Sum>i<2 * 5 + 1. (- 1) ^ i * (1 / real (i * 2 + 1) * (1 / 5) ^ (i * 2 + 1)))"
    by (rule arctan_partial_sums) simp_all
  have l239: "(\<Sum>i<2 * 2. (- 1) ^ i * (1 / real (i * 2 + 1) * (1 / 239) ^ (i * 2 + 1))) \<le> arctan (1 / 239)"
    by (rule arctan_partial_sums) simp_all
  have u239: "arctan (1 / 239) \<le> (\<Sum>i<2 * 2 + 1. (- 1) ^ i * (1 / real (i * 2 + 1) * (1 / 239) ^ (i * 2 + 1)))"
    by (rule arctan_partial_sums) simp_all
  have p: "pi = 16 * arctan (1 / 5) - 4 * arctan (1 / 239)"
    using machin by simp
  have "(7074237752028440 - 1 / 2) / 2 ^ 51
      < 16 * (\<Sum>i<2 * 6. (- 1) ^ i * (1 / real (i * 2 + 1) * (1 / 5) ^ (i * 2 + 1)))
        - 4 * (\<Sum>i<2 * 2 + 1. (- 1) ^ i * (1 / real (i * 2 + 1) * (1 / 239) ^ (i * 2 + 1)))"
    by (simp add: eval_nat_numeral)
  also have "\<dots> \<le> pi"
    unfolding p using l5 u239 by linarith
  finally show "(7074237752028440 - 1 / 2) / 2 ^ 51 < pi" .
  have "pi \<le> 16 * (\<Sum>i<2 * 5 + 1. (- 1) ^ i * (1 / real (i * 2 + 1) * (1 / 5) ^ (i * 2 + 1)))
        - 4 * (\<Sum>i<2 * 2. (- 1) ^ i * (1 / real (i * 2 + 1) * (1 / 239) ^ (i * 2 + 1)))"
    unfolding p using u5 l239 by linarith
  also have "\<dots> < (7074237752028440 + 1 / 2) / 2 ^ 51"
    by (simp add: eval_nat_numeral)
  finally show "pi < (7074237752028440 + 1 / 2) / 2 ^ 51" .
qed

lemma round_half_even_unique:
  assumes "of_int n - 1 / 2 < t" and "t < of_int n + 1 / 2"
  shows "round_half_even t = n"
proof -
  have "\<lfloor>t\<rfloor> = n \<or> \<lfloor>t\<rfloor> = n - 1"
    using assms by linarith
  then show ?thesis
  proof
    assume f: "\<lfloor>t\<rfloor> = n"
    then have "t - of_int \<lfloor>t\<rfloor> < 1 / 2" using assms by simp
    with f show ?thesis by (simp add: round_half_even_def Let_def)
  next
    assume f: "\<lfloor>t\<rfloor> = n - 1"
    then have "1 / 2 < t - of_int \<lfloor>t\<rfloor>" using assms by simp
    with f show ?thesis by (simp add: round_half_even_def Let_def)
  qed
qed

lemma MATH_PI_nearest: "rnd pi = MATH_PI"
proof -
  have b: "2 \<le> pi" "pi < 4"
    using pi_ge_two pi_less_4 by simp_all
  have "rnd pi = of_int (round_half_even (pi / 2 powr (of_int (1 - 52)))) * 2 powr (of_int (1 - 52))"
    using b by (intro rnd_eval) simp_all
  moreover have "round_half_even (pi / 2 powr (of_int (1 - 52))) = 7074237752028440"
    using pi_bounds by (intro round_half_even_unique) (simp_all add: powr_neg_numeral field_simps)
  ultimately show ?thesis
    by (simp add: powr_neg_numeral MATH_PI_def)
qed

text \<open>
  C7, as amended. The fields of \<open>useChartDimensions width height spokeCountHint\<close> (the
  specification's \<open>computeDimensions\<close>) are the quotients, the difference, the maximum and
  the quotient that the claim names, each rounded to a double, with \<open>2 * Math.PI\<close> for
  \<open>2 * pi\<close>, \<open>Math.PI\<close> being the double nearest to \<open>pi\<close>; the spoke count is at least 5
  unless the hint is NaN. For a finite spoke
  count the angle step times the spoke count is \<open>2 * Math.PI\<close> within the relative error
  \<open>2^-51\<close>; it need not be equal. For \<open>(400, 400, 8)\<close> the centre is \<open>(200, 200)\<close>, the
  radius 140, the spoke count 8 and the angle step \<open>Math.PI / 4\<close>, which is \<open>0.7853981634\<close>
  to ten decimal places, and there the product is \<open>2 * Math.PI\<close> exactly.
\<close>

theorem useChartDimensions_fields:
  "useChartDimensions width height spokeCountHint =
     \<lparr>centerX = js_div width (Fin 2), centerY = js_div height (Fin 2),
      radius = js_sub (js_div (js_min width height) (Fin 2)) (Fin 60),
      spokeCount = js_max (Fin 5) spokeCountHint,
      angleStep = js_div (js_mul (Fin 2) (Fin MATH_PI)) (js_max (Fin 5) spokeCountHint)\<rparr>
   \<and> js_mul (Fin 2) (Fin MATH_PI) = Fin (2 * MATH_PI)
   \<and> rnd pi = MATH_PI
   \<and> (spokeCountHint \<noteq> NaN \<longrightarrow>
        js_le (Fin 5) (spokeCount (useChartDimensions width height spokeCountHint)))
   \<and> (\<forall>n. is_double spokeCountHint
          \<and> spokeCount (useChartDimensions width height spokeCountHint) = Fin n \<longrightarrow>
        5 \<le> n \<and>
        (\<exists>a p. angleStep (useChartDimensions width height spokeCountHint) = Fin a
           \<and> js_mul (angleStep (useChartDimensions width height spokeCountHint))
                (spokeCount (useChartDimensions width height spokeCountHint)) = Fin p
           \<and> \<bar>p - 2 * MATH_PI\<bar> \<le> 2 * MATH_PI / 2 ^ 51))
   \<and> useChartDimensions (Fin 400) (Fin 400) (Fin 8)
       = \<lparr>centerX = Fin 200, centerY = Fin 200, radius = Fin 140, spokeCount = Fin 8,
          angleStep = Fin (MATH_PI / 4)\<rparr>
   \<and> \<bar>MATH_PI / 4 - 7853981634 / 10000000000\<bar> < 1 / 10 ^ 10
   \<and> js_mul (angleStep (useChartDimensions (Fin 400) (Fin 400) (Fin 8)))
        (spokeCount (useChartDimensions (Fin 400) (Fin 400) (Fin 8)))
       = js_mul (Fin 2) (Fin MATH_PI)"
proof -
  have fields: "useChartDimensions width height spokeCountHint =
     \<lparr>centerX = js_div width (Fin 2), centerY = js_div height (Fin 2),
      radius = js_sub (js_div (js_min width height) (Fin 2)) (Fin 60),
      spokeCount = js_max (Fin 5) spokeCountHint,
      angleStep = js_div (js_mul (Fin 2) (Fin MATH_PI)) (js_max (Fin 5) spokeCountHint)\<rparr>"
    by (simp add: useChartDimensions_eq two_pi)
  have least: "js_le (Fin 5) (spokeCount (useChartDimensions width height spokeCountHint))"
    if "spokeCountHint \<noteq> NaN"
    using that by (simp add: useChartDimensions_eq js_max_5_le)
  have product: "5 \<le> n \<and>
        (\<exists>a p. angleStep (useChartDimensions width height spokeCountHint) = Fin a
           \<and> js_mul (angleStep (useChartDimensions width height spokeCountHint))
                (spokeCount (useChartDimensions width height spokeCountHint)) = Fin p
           \<and> \<bar>p - 2 * MATH_PI\<bar> \<le> 2 * MATH_PI / 2 ^ 51)"
    if h: "is_double spokeCountHint
          \<and> spokeCount (useChartDimensions width height spokeCountHint) = Fin n" for n
  proof -
    from h have m: "js_max (Fin 5) spokeCountHint = Fin n"
      by (simp add: useChartDimensions_eq)
    from h have d: "is_double spokeCountHint" by simp
    note n = js_max_5[OF d m]
    from angleStep_times_spokeCount[OF n] obtain a p where
      "js_div (Fin (2 * MATH_PI)) (Fin n) = Fin a" "js_mul (Fin a) (Fin n) = Fin p"
      "\<bar>p - 2 * MATH_PI\<bar> \<le> 2 * MATH_PI / 2 ^ 51"
      by blast
    with n(1) show ?thesis
      by (simp add: useChartDimensions_eq m)
  qed
  have approx: "\<bar>MATH_PI / 4 - 7853981634 / 10000000000\<bar> < 1 / 10 ^ 10"
    by (simp add: MATH_PI_def abs_less_iff)
  have exact: "js_mul (angleStep (useChartDimensions (Fin 400) (Fin 400) (Fin 8)))
        (spokeCount (useChartDimensions (Fin 400) (Fin 400) (Fin 8)))
       = js_mul (Fin 2) (Fin MATH_PI)"
    by (simp add: dimensions_400_400_8 quarter_pi_times_8 two_pi)
  from fields two_pi MATH_PI_nearest least product dimensions_400_400_8 approx exact
  show ?thesis
    by (intro conjI allI impI) blast+
qed

theorem useChartDimensions_fields_witness:
  "is_double (Fin 8)
   \<and> spokeCount (useChartDimensions (Fin 400) (Fin 400) (Fin 8)) = Fin 8
   \<and> (\<exists>a p. angleStep (useChartDimensions (Fin 400) (Fin 400) (Fin 8)) = Fin a
        \<and> js_mul (angleStep (useChartDimensions (Fin 400) (Fin 400) (Fin 8)))
             (spokeCount (useChartDimensions (Fin 400) (Fin 400) (Fin 8))) = Fin p
        \<and> \<bar>p - 2 * MATH_PI\<bar> \<le> 2 * MATH_PI / 2 ^ 51)"
proof -
  have d: "is_double (Fin 8)"
    by (rule is_double_numeral) simp
  have s: "spokeCount (useChartDimensions (Fin 400) (Fin 400) (Fin 8)) = Fin 8"
    by (simp add: useChartDimensions_eq js_max_def)
  from useChartDimensions_fields[of "Fin 400" "Fin 400" "Fin 8"] d s
  show ?thesis by blast
qed

text \<open>
  C7 as stated fails in doubles: with 25 spokes the angle step times the spoke count is the
  double next above \<open>2 * Math.PI\<close>, and with the hint \<open>Infinity\<close> the angle step is 0 and
  the product is NaN.
\<close>

theorem useChartDimensions_fields_counterexample:
  "spokeCount (useChartDimensions (Fin 400) (Fin 400) (Fin 25)) = Fin 25
   \<and> js_mul (angleStep (useChartDimensions (Fin 400) (Fin 400) (Fin 25)))
        (spokeCount (useChartDimensions (Fin 400) (Fin 400) (Fin 25)))
       = Fin (7074237752028441 / 2 ^ 50)
   \<and> js_mul (Fin 2) (Fin MATH_PI) = Fin (7074237752028440 / 2 ^ 50)
   \<and> \<not> js_eq (js_mul (angleStep (useChartDimensions (Fin 400) (Fin 400) (Fin 25)))
              (spokeCount (useChartDimensions (Fin 400) (Fin 400) (Fin 25))))
            (js_mul (Fin 2) (Fin MATH_PI))
   \<and> js_le (Fin 5) (spokeCount (useChartDimensions (Fin 400) (Fin 400) PosInf))
   \<and> js_mul (angleStep (useChartDimensions (Fin 400) (Fin 400) PosInf))
        (spokeCount (useChartDimensions (Fin 400) (Fin 400) PosInf)) = NaN"
proof -
  have i: "js_max (Fin 5) PosInf = PosInf"
    by (simp add: js_max_def)
  have inf: "js_le (Fin 5) (spokeCount (useChartDimensions (Fin 400) (Fin 400) PosInf))"
    "js_mul (angleStep (useChartDimensions (Fin 400) (Fin 400) PosInf))
        (spokeCount (useChartDimensions (Fin 400) (Fin 400) PosInf)) = NaN"
    using MATH_PI_bounds
    by (simp_all add: useChartDimensions_eq i js_le_def js_div_def js_mul_def)
  have m: "js_max (Fin 5) (Fin 25) = Fin 25"
    by (simp add: js_max_def)
  have a: "js_mul (angleStep (useChartDimensions (Fin 400) (Fin 400) (Fin 25)))
        (spokeCount (useChartDimensions (Fin 400) (Fin 400) (Fin 25)))
       = Fin (7074237752028441 / 2 ^ 50)"
    by (simp only: useChartDimensions_eq m ChartDimensions.simps step_25 step_25_times_25)
  have "2 * MATH_PI = 7074237752028440 / 2 ^ 50"
    by (simp add: MATH_PI_def)
  then have b: "js_mul (Fin 2) (Fin MATH_PI) = Fin (7074237752028440 / 2 ^ 50)"
    by (simp only: two_pi)
  have "\<not> js_eq (Fin (7074237752028441 / 2 ^ 50)) (Fin (7074237752028440 / 2 ^ 50))"
    by (simp add: js_eq_def)
  with a b inf show ?thesis
    by (simp add: useChartDimensions_eq m)
qed

section \<open>Properties of the points\<close>

lemma is_zero_finite: "is_zero z \<Longrightarrow> is_finite z"
  by (cases z) simp_all

lemma progress_zero:
  assumes "is_finite mr" and "is_finite c" and "is_double cx" and "cx \<noteq> NaN"
  shows "js_eq (js_add cx (js_mul (js_mul mr (Fin 0)) c)) cx"
proof -
  have "is_zero (js_mul mr (Fin 0))"
    using assms(1) by (intro js_mul_zero_finite) simp_all
  then have "is_zero (js_mul (js_mul mr (Fin 0)) c)"
    using assms(2) by (rule js_mul_finite_zero)
  with assms(3,4) show ?thesis
    by (rule js_add_zero)
qed

lemma clamped_value:
  assumes "js_lt (Fin 0) (Fin m)" and "v \<noteq> NaN"
  shows "\<exists>c. js_max (Fin 0) (js_min (Fin m) v) = Fin c \<and> 0 \<le> c \<and> c \<le> m"
  using assms by (cases v) (auto simp add: js_max_def js_min_def)

lemma positive_double_ge:
  assumes "rnd m = m" and "0 < m"
  shows "2 powr (- 1074) \<le> m"
proof -
  define k where "k = round_half_even (m / ulp m)"
  have m: "m = of_int k * ulp m"
    using assms by (simp add: rnd_def k_def split: if_splits)
  with assms(2) have "0 < of_int k * ulp m" by simp
  then have "0 < k"
    using ulp_pos[of m] by (simp add: zero_less_mult_iff)
  then have "1 \<le> (of_int k :: real)" by simp
  then have "1 * ulp m \<le> of_int k * ulp m"
    by (intro mult_right_mono) simp_all
  with m have "ulp m \<le> m" by simp
  moreover have "2 powr (- 1074) \<le> ulp m"
    unfolding ulp_def using expo_ge[of m] by (intro powr_mono) simp_all
  ultimately show ?thesis by linarith
qed

lemma num_val_round64: "\<bar>num_val (round64 neg t)\<bar> \<le> \<bar>rnd t\<bar>"
  by (simp add: round64_def Let_def)

lemma rnd_abs_bound: "\<bar>rnd t\<bar> \<le> \<bar>t\<bar> + \<bar>t\<bar> / 2 ^ 53 + 2 powr (- 1075)"
  using rnd_error[of t] half_ulp_bound[of t] by linarith

lemma maxRadius_finite:
  assumes pos: "js_lt (Fin 0) (Fin m)" and dbl: "is_double (Fin m)"
    and r: "\<bar>r\<bar> \<le> 2 ^ 1022" and rm: "\<bar>r\<bar> * m \<le> 2 ^ 1023" and v: "v \<noteq> NaN"
  shows "is_finite (js_div (js_mul (Fin r) (js_max (Fin 0) (js_min (Fin m) v))) (Fin m))"
proof -
  from pos have mpos: "0 < m" by simp
  from clamped_value[OF pos v] obtain c where
    c: "js_max (Fin 0) (js_min (Fin m) v) = Fin c" "0 \<le> c" "c \<le> m"
    by blast
  define t where "t = r * c"
  have tb: "\<bar>t\<bar> \<le> \<bar>r\<bar> * m"
    using c(2,3) by (simp add: t_def abs_mult mult_left_mono)
  with rm have "\<bar>t\<bar> \<le> 2 ^ 1023" by linarith
  then have fin: "is_finite (round64 (is_neg (Fin r) \<noteq> is_neg (Fin c)) t)"
    by (rule round64_finite)
  define P where "P = num_val (round64 (is_neg (Fin r) \<noteq> is_neg (Fin c)) t)"
  have mul: "js_mul (Fin r) (Fin c) = round64 (is_neg (Fin r) \<noteq> is_neg (Fin c)) t"
    by (simp add: js_mul_def t_def)
  have "\<bar>P\<bar> \<le> \<bar>t\<bar> + \<bar>t\<bar> / 2 ^ 53 + 2 powr (- 1075)"
    unfolding P_def using num_val_round64 rnd_abs_bound order_trans by blast
  also have "\<dots> \<le> \<bar>r\<bar> * m + \<bar>r\<bar> * m / 2 ^ 53 + 2 powr (- 1075)"
    using tb by (intro add_mono divide_right_mono) simp_all
  finally have Pb: "\<bar>P\<bar> \<le> \<bar>r\<bar> * m + \<bar>r\<bar> * m / 2 ^ 53 + 2 powr (- 1075)" .
  have mlow: "2 powr (- 1074) \<le> m"
    using dbl mpos by (intro positive_double_ge) simp_all
  have "(2::real) powr (- 1075) = 2 powr (- 1074) / 2"
    using powr_diff[of "2::real" "- 1074" 1] by simp
  with mlow have tiny: "2 powr (- 1075) \<le> m / 2" by simp
  have "\<bar>P / m\<bar> = \<bar>P\<bar> / m"
    using mpos by simp
  also have "\<dots> \<le> (\<bar>r\<bar> * m + \<bar>r\<bar> * m / 2 ^ 53 + m / 2) / m"
    using Pb tiny mpos by (intro divide_right_mono) simp_all
  also have "\<dots> = \<bar>r\<bar> + \<bar>r\<bar> / 2 ^ 53 + 1 / 2"
    using mpos by (simp add: field_simps)
  also have "\<dots> \<le> 2 ^ 1022 + 2 ^ 1022 / 2 + 2 ^ 1022 / 2"
  proof -
    have "\<bar>r\<bar> / 2 ^ 53 \<le> \<bar>r\<bar> / 2"
      using power_increasing[of 1 53 "2::real"] by (intro divide_left_mono) simp_all
    moreover have "(1::real) \<le> 2 ^ 1022" by simp
    ultimately show ?thesis using r by simp
  qed
  also have "\<dots> = 2 ^ 1023"
    by (simp add: power_add[of "2::real" 1 1022, simplified])
  finally have "\<bar>P / m\<bar> \<le> 2 ^ 1023" .
  then have "is_finite (round64 neg (P / m))" for neg
    by (rule round64_finite)
  moreover have "js_div (round64 (is_neg (Fin r) \<noteq> is_neg (Fin c)) t) (Fin m)
      = round64 (is_neg (round64 (is_neg (Fin r) \<noteq> is_neg (Fin c)) t) \<noteq> is_neg (Fin m)) (P / m)"
    using fin mpos unfolding P_def
    by (cases "round64 (is_neg (Fin r) \<noteq> is_neg (Fin c)) t") (simp_all add: js_div_def)
  ultimately show ?thesis
    by (simp add: c(1) mul)
qed

text \<open>
  Without the precondition the static point need not have a radius: at \<open>maxValue = 0\<close>
  the radius is NaN, whatever the dimensions and the value are.
\<close>

lemma staticDataPoint_zero_maxValue:
  "maxRadius (staticDataPoint cosf sinf dims (Fin 0) dataPoint idx) = NaN"
proof -
  have c: "js_max (Fin 0) (js_min (Fin 0) v) = NaN \<or> js_max (Fin 0) (js_min (Fin 0) v) = Fin 0"
    for v
    by (cases v) (auto simp add: js_max_def js_min_def)
  have "js_div (js_mul rad NaN) (Fin 0) = NaN" for rad
    by (simp add: js_mul_def js_div_def)
  moreover have "js_div (js_mul rad (Fin 0)) (Fin 0) = NaN" for rad
    by (cases rad) (auto simp add: js_mul_def js_div_def round64_def)
  ultimately show ?thesis
    using c[of "value dataPoint"] by (auto simp add: staticDataPoint_def Let_def)
qed

lemma staticDataPoint_eq:
  "staticDataPoint cosf sinf dims maxValue dataPoint idx =
     \<lparr>angle = js_sub (js_mul (Fin (real idx)) (angleStep dims)) (js_div (Fin MATH_PI) (Fin 2)),
      maxRadius = js_div (js_mul (radius dims)
                    (js_max (Fin 0) (js_min maxValue (value dataPoint)))) maxValue,
      centerX' = centerX dims, centerY' = centerY dims,
      cos' = cosf (js_sub (js_mul (Fin (real idx)) (angleStep dims)) (js_div (Fin MATH_PI) (Fin 2))),
      sin' = sinf (js_sub (js_mul (Fin (real idx)) (angleStep dims)) (js_div (Fin MATH_PI) (Fin 2)))\<rparr>"
  by (simp add: staticDataPoint_def Let_def)

lemma animatedDataPoint_one:
  "animatedDataPoint (Fin 1) (staticDataPoint cosf sinf dims maxValue dataPoint idx) =
     \<lparr>x = js_add (centerX dims)
            (js_mul (maxRadius (staticDataPoint cosf sinf dims maxValue dataPoint idx))
               (cos' (staticDataPoint cosf sinf dims maxValue dataPoint idx))),
      y = js_add (centerY dims)
            (js_mul (maxRadius (staticDataPoint cosf sinf dims maxValue dataPoint idx))
               (sin' (staticDataPoint cosf sinf dims maxValue dataPoint idx)))\<rparr>"
  by (simp add: animatedDataPoint_def staticDataPoint_eq Let_def js_mul_one js_div_is_double)

lemma example_radius: "js_div (js_mul (Fin 140) (js_max (Fin 0) (js_min (Fin 5) (Fin 5)))) (Fin 5) = Fin 140"
proof -
  have "js_max (Fin 0) (js_min (Fin 5) (Fin 5)) = Fin 5"
    by (simp add: js_max_def js_min_def)
  moreover have "js_mul (Fin 140) (Fin 5) = Fin 700"
    by (simp add: js_mul_def round64_numeral)
  moreover have "js_div (Fin 700) (Fin 5) = Fin 140"
    by (simp add: js_div_def round64_numeral)
  ultimately show ?thesis by simp
qed

lemma example_x:
  "js_add (Fin 200) (js_mul (Fin 140) (Fin (4967757600021511 / 2 ^ 106))) = Fin 200"
proof -
  have "round64 False (140 * (4967757600021511 / 2 ^ 106))
      = Fin (of_int (round_half_even
               (140 * (4967757600021511 / 2 ^ 106) / 2 powr (of_int (- 47 - 52))))
          * 2 powr (of_int (- 47 - 52)))"
    by (rule round64_eval) (simp_all add: powr_neg_numeral)
  also have "\<dots> = Fin (679185609377941 / 2 ^ 96)"
    by (simp add: powr_neg_numeral round_half_even_def)
  finally have m: "js_mul (Fin 140) (Fin (4967757600021511 / 2 ^ 106))
      = Fin (679185609377941 / 2 ^ 96)"
    by (simp add: js_mul_def)
  have "round64 False (200 + 679185609377941 / 2 ^ 96)
      = Fin (of_int (round_half_even
               ((200 + 679185609377941 / 2 ^ 96) / 2 powr (of_int (7 - 52))))
          * 2 powr (of_int (7 - 52)))"
    by (rule round64_eval) (simp_all add: powr_neg_numeral)
  also have "\<dots> = Fin 200"
    by (simp add: powr_neg_numeral round_half_even_def)
  finally show ?thesis
    unfolding m by (simp add: js_add_def)
qed

lemma example_y: "js_add (Fin 200) (js_mul (Fin 140) (Fin (- 1))) = Fin 60"
proof -
  have "rnd (- 140) = - 140"
    unfolding rnd_minus by simp
  then have "round64 True (- 140) = Fin (- 140)"
    using small_less_huge[of "num.Bit0 (num.Bit0 (num.Bit1 (num.Bit1 (num.Bit0 (num.Bit0 (num.Bit0 num.One))))))"]
    by (simp add: round64_exact)
  then have "js_mul (Fin 140) (Fin (- 1)) = Fin (- 140)"
    by (simp add: js_mul_def)
  then show ?thesis
    by (simp add: js_add_def round64_numeral)
qed

text \<open>
  C8, as amended. Under the precondition \<open>maxValue > 0\<close>, the animated point of a static
  point is \<open>(centerX + maxRadius * progress * cos, centerY + maxRadius * progress * sin)\<close>
  with the operations of doubles, where the centre is that of the dimensions, \<open>cos\<close> and
  \<open>sin\<close> are \<open>Math.cos\<close> and \<open>Math.sin\<close> of the angle \<open>index * angleStep - Math.PI / 2\<close>,
  and \<open>maxRadius\<close> is the radius times the clamped value, over \<open>maxValue\<close>. At progress 1
  the point is \<open>(centerX + maxRadius * cos, centerY + maxRadius * sin)\<close>. At progress 0 it
  equals the centre (as \<open>===\<close> compares numbers) provided \<open>maxRadius\<close>, \<open>cos\<close> and \<open>sin\<close>
  are finite and the centre is a number. \<open>maxRadius\<close> is finite when the radius and
  \<open>maxValue\<close> are finite doubles for which the product of the radius and \<open>maxValue\<close> does
  not overflow, and the value is not NaN. The list \<open>dataPoints\<close> holds the animated point
  of every static point.
\<close>

theorem animated_point:
  assumes "js_lt (Fin 0) maxValue"
  shows "\<exists>sp. staticDataPoint cosf sinf dims maxValue dataPoint idx = sp
     \<and> animatedDataPoint animationProgress sp
         = \<lparr>x = js_add (centerX' sp) (js_mul (js_mul (maxRadius sp) animationProgress) (cos' sp)),
            y = js_add (centerY' sp) (js_mul (js_mul (maxRadius sp) animationProgress) (sin' sp))\<rparr>
     \<and> centerX' sp = centerX dims
     \<and> centerY' sp = centerY dims
     \<and> cos' sp = cosf (angle sp)
     \<and> sin' sp = sinf (angle sp)
     \<and> angle sp = js_sub (js_mul (Fin (real idx)) (angleStep dims)) (js_div (Fin MATH_PI) (Fin 2))
     \<and> maxRadius sp = js_div (js_mul (radius dims)
                          (js_max (Fin 0) (js_min maxValue (value dataPoint)))) maxValue
     \<and> animatedDataPoint (Fin 1) sp
         = \<lparr>x = js_add (centerX dims) (js_mul (maxRadius sp) (cos' sp)),
            y = js_add (centerY dims) (js_mul (maxRadius sp) (sin' sp))\<rparr>
     \<and> (is_finite (maxRadius sp) \<and> is_finite (cos' sp) \<and> is_double (centerX dims)
          \<and> centerX dims \<noteq> NaN \<longrightarrow>
        js_eq (x (animatedDataPoint (Fin 0) sp)) (centerX dims))
     \<and> (is_finite (maxRadius sp) \<and> is_finite (sin' sp) \<and> is_double (centerY dims)
          \<and> centerY dims \<noteq> NaN \<longrightarrow>
        js_eq (y (animatedDataPoint (Fin 0) sp)) (centerY dims))
     \<and> (\<forall>r m. radius dims = Fin r \<and> maxValue = Fin m \<and> is_double maxValue
            \<and> \<bar>r\<bar> \<le> 2 ^ 1022 \<and> \<bar>r\<bar> * m \<le> 2 ^ 1023 \<and> value dataPoint \<noteq> NaN \<longrightarrow>
          is_finite (maxRadius sp))
     \<and> dataPoints (staticDataPoints cosf sinf dims normalized maxValue) animationProgress
         = map (\<lambda>(i, p). animatedDataPoint animationProgress
                  (staticDataPoint cosf sinf dims maxValue p i))
             (enumerate 0 normalized)"
proof -
  define sp where "sp = staticDataPoint cosf sinf dims maxValue dataPoint idx"
  have formula: "animatedDataPoint animationProgress sp
         = \<lparr>x = js_add (centerX' sp) (js_mul (js_mul (maxRadius sp) animationProgress) (cos' sp)),
            y = js_add (centerY' sp) (js_mul (js_mul (maxRadius sp) animationProgress) (sin' sp))\<rparr>"
    by (simp add: animatedDataPoint_def Let_def)
  have fields: "centerX' sp = centerX dims" "centerY' sp = centerY dims"
    "cos' sp = cosf (angle sp)" "sin' sp = sinf (angle sp)"
    "angle sp = js_sub (js_mul (Fin (real idx)) (angleStep dims)) (js_div (Fin MATH_PI) (Fin 2))"
    "maxRadius sp = js_div (js_mul (radius dims)
                          (js_max (Fin 0) (js_min maxValue (value dataPoint)))) maxValue"
    by (simp_all add: sp_def staticDataPoint_eq)
  have one: "animatedDataPoint (Fin 1) sp
         = \<lparr>x = js_add (centerX dims) (js_mul (maxRadius sp) (cos' sp)),
            y = js_add (centerY dims) (js_mul (maxRadius sp) (sin' sp))\<rparr>"
    unfolding sp_def by (rule animatedDataPoint_one)
  have zero_x: "js_eq (x (animatedDataPoint (Fin 0) sp)) (centerX dims)"
    if "is_finite (maxRadius sp) \<and> is_finite (cos' sp) \<and> is_double (centerX dims)
          \<and> centerX dims \<noteq> NaN"
    using that progress_zero[of "maxRadius sp" "cos' sp" "centerX dims"]
    by (simp add: formula[unfolded fields(1,2)] animatedDataPoint_def Let_def fields(1))
  have zero_y: "js_eq (y (animatedDataPoint (Fin 0) sp)) (centerY dims)"
    if "is_finite (maxRadius sp) \<and> is_finite (sin' sp) \<and> is_double (centerY dims)
          \<and> centerY dims \<noteq> NaN"
    using that progress_zero[of "maxRadius sp" "sin' sp" "centerY dims"]
    by (simp add: animatedDataPoint_def Let_def fields(2))
  have finite: "is_finite (maxRadius sp)"
    if h: "radius dims = Fin r \<and> maxValue = Fin m \<and> is_double maxValue
            \<and> \<bar>r\<bar> \<le> 2 ^ 1022 \<and> \<bar>r\<bar> * m \<le> 2 ^ 1023 \<and> value dataPoint \<noteq> NaN" for r m
  proof -
    from h assms have "js_lt (Fin 0) (Fin m)" "is_double (Fin m)" "\<bar>r\<bar> \<le> 2 ^ 1022"
      "\<bar>r\<bar> * m \<le> 2 ^ 1023" "value dataPoint \<noteq> NaN"
      by auto
    from maxRadius_finite[OF this] h show ?thesis
      by (auto simp add: fields(6))
  qed
  have all: "dataPoints (staticDataPoints cosf sinf dims normalized maxValue) animationProgress
         = map (\<lambda>(i, p). animatedDataPoint animationProgress
                  (staticDataPoint cosf sinf dims maxValue p i))
             (enumerate 0 normalized)"
    by (simp add: dataPoints_def staticDataPoints_def case_prod_beta comp_def)
  from formula fields one zero_x zero_y finite all show ?thesis
    unfolding sp_def by (intro exI conjI allI impI) blast+
qed

theorem animated_point_witness:
  "js_lt (Fin 0) (Fin 5)
   \<and> animatedDataPoint (Fin 1)
        (staticDataPoint example_cos example_sin
           \<lparr>centerX = Fin 200, centerY = Fin 200, radius = Fin 140, spokeCount = Fin 8,
             angleStep = Fin (MATH_PI / 4)\<rparr>
           (Fin 5) \<lparr>name = ''A'', value = Fin 5\<rparr> 0)
       = \<lparr>x = Fin 200, y = Fin 60\<rparr>
   \<and> js_eq (x (animatedDataPoint (Fin 0)
        (staticDataPoint example_cos example_sin
           \<lparr>centerX = Fin 200, centerY = Fin 200, radius = Fin 140, spokeCount = Fin 8,
             angleStep = Fin (MATH_PI / 4)\<rparr>
           (Fin 5) \<lparr>name = ''A'', value = Fin 5\<rparr> 0))) (Fin 200)
   \<and> js_eq (y (animatedDataPoint (Fin 0)
        (staticDataPoint example_cos example_sin
           \<lparr>centerX = Fin 200, centerY = Fin 200, radius = Fin 140, spokeCount = Fin 8,
             angleStep = Fin (MATH_PI / 4)\<rparr>
           (Fin 5) \<lparr>name = ''A'', value = Fin 5\<rparr> 0))) (Fin 200)"
proof -
  let ?dims = "\<lparr>centerX = Fin 200, centerY = Fin 200, radius = Fin 140, spokeCount = Fin 8,
                 angleStep = Fin (MATH_PI / 4)\<rparr>"
  let ?sp = "staticDataPoint example_cos example_sin ?dims (Fin 5) \<lparr>name = ''A'', value = Fin 5\<rparr> 0"
  have h: "js_lt (Fin 0) (Fin 5)" by simp
  have d: "is_double (Fin 200)"
    by (rule is_double_numeral) simp
  have f: "maxRadius ?sp = Fin 140" "cos' ?sp = Fin (4967757600021511 / 2 ^ 106)"
    "sin' ?sp = Fin (- 1)"
    by (simp_all add: staticDataPoint_eq example_radius example_cos_def example_sin_def)
  from animated_point[OF h, where animationProgress = "Fin 0" and idx = 0
      and normalized = "[]" and cosf = example_cos and sinf = example_sin
      and dims = ?dims and dataPoint = "\<lparr>name = ''A'', value = Fin 5\<rparr>"]
  have one: "animatedDataPoint (Fin 1) ?sp
         = \<lparr>x = js_add (centerX ?dims) (js_mul (maxRadius ?sp) (cos' ?sp)),
            y = js_add (centerY ?dims) (js_mul (maxRadius ?sp) (sin' ?sp))\<rparr>"
    and zx: "is_finite (maxRadius ?sp) \<and> is_finite (cos' ?sp) \<and> is_double (centerX ?dims)
          \<and> centerX ?dims \<noteq> NaN \<longrightarrow>
        js_eq (x (animatedDataPoint (Fin 0) ?sp)) (centerX ?dims)"
    and zy: "is_finite (maxRadius ?sp) \<and> is_finite (sin' ?sp) \<and> is_double (centerY ?dims)
          \<and> centerY ?dims \<noteq> NaN \<longrightarrow>
        js_eq (y (animatedDataPoint (Fin 0) ?sp)) (centerY ?dims)"
    by blast+
  have "animatedDataPoint (Fin 1) ?sp = \<lparr>x = Fin 200, y = Fin 60\<rparr>"
    unfolding one f by (simp only: ChartDimensions.simps example_x example_y)
  moreover have "js_eq (x (animatedDataPoint (Fin 0) ?sp)) (Fin 200)"
    using zx d unfolding f by simp
  moreover have "js_eq (y (animatedDataPoint (Fin 0) ?sp)) (Fin 200)"
    using zy d unfolding f by simp
  ultimately show ?thesis
    using h by simp
qed

text \<open>
  C8 as stated fails in doubles: on the chart of 400 by 400 with \<open>maxValue = 2^1020\<close> and
  a point of that value, the product of the radius and the value overflows, \<open>maxRadius\<close>
  is infinite, and at progress 0 the coordinates are NaN, not the centre.
\<close>

theorem animated_point_counterexample:
  "js_lt (Fin 0) (Fin (2 ^ 1020))
   \<and> is_double (Fin (2 ^ 1020))
   \<and> maxRadius (staticDataPoint example_cos example_sin
        (useChartDimensions (Fin 400) (Fin 400) (Fin 8))
        (Fin (2 ^ 1020)) \<lparr>name = ''A'', value = Fin (2 ^ 1020)\<rparr> 0) = PosInf
   \<and> animatedDataPoint (Fin 0)
        (staticDataPoint example_cos example_sin
           (useChartDimensions (Fin 400) (Fin 400) (Fin 8))
           (Fin (2 ^ 1020)) \<lparr>name = ''A'', value = Fin (2 ^ 1020)\<rparr> 0)
       = \<lparr>x = NaN, y = NaN\<rparr>
   \<and> centerX (useChartDimensions (Fin 400) (Fin 400) (Fin 8)) = Fin 200
   \<and> \<not> js_eq NaN (Fin 200)"
proof -
  have p: "(2::real) powr (of_int 1020) = 2 ^ 1020"
    by (simp add: powr_realpow[symmetric])
  have "rnd (of_int 1 * 2 powr (of_int 1020)) = of_int 1 * 2 powr (of_int 1020)"
    by (rule rnd_exact) simp_all
  then have r1: "rnd (2 ^ 1020) = 2 ^ 1020"
    unfolding p by simp
  have "rnd (of_int 140 * 2 powr (of_int 1020)) = of_int 140 * 2 powr (of_int 1020)"
    by (rule rnd_exact) simp_all
  then have r2: "rnd (140 * 2 ^ 1020) = 140 * 2 ^ 1020"
    unfolding p by simp
  have lt: "(2::real) ^ 1020 < 2 ^ 1024"
    by (intro power_strict_increasing) simp_all
  have big: "(2::real) ^ 1024 \<le> 140 * 2 ^ 1020"
    by (simp add: power_add[of "2::real" 4 1020, simplified])
  have pos: "(0::real) < 2 ^ 1020" by simp
  have d: "is_double (Fin (2 ^ 1020))"
    using r1 lt by simp
  have c: "js_max (Fin 0) (js_min (Fin (2 ^ 1020)) (Fin (2 ^ 1020))) = Fin (2 ^ 1020)"
    by (simp add: js_max_def js_min_def)
  have m: "js_mul (Fin 140) (Fin (2 ^ 1020)) = PosInf"
    using r2 big pos by (simp add: js_mul_def round64_def Let_def)
  have q: "js_div PosInf (Fin (2 ^ 1020)) = PosInf"
    by (simp add: js_div_def)
  have mr: "maxRadius (staticDataPoint example_cos example_sin
        (useChartDimensions (Fin 400) (Fin 400) (Fin 8))
        (Fin (2 ^ 1020)) \<lparr>name = ''A'', value = Fin (2 ^ 1020)\<rparr> 0) = PosInf"
    by (simp only: staticDataPoint_eq dimensions_400_400_8 c m q StaticPoint.simps
        ChartDimensions.simps RadarChartDataPoint.simps)
  have z: "js_mul PosInf (Fin 0) = NaN"
    by (simp add: js_mul_def)
  have n: "js_mul NaN v = NaN" "js_add v NaN = NaN" for v
    by (simp_all add: js_mul_def js_add_def)
  have a: "animatedDataPoint (Fin 0)
        (staticDataPoint example_cos example_sin
           (useChartDimensions (Fin 400) (Fin 400) (Fin 8))
           (Fin (2 ^ 1020)) \<lparr>name = ''A'', value = Fin (2 ^ 1020)\<rparr> 0)
       = \<lparr>x = NaN, y = NaN\<rparr>"
    unfolding animatedDataPoint_def Let_def mr z n by simp
  have "\<not> js_eq NaN (Fin 200)"
    by (simp add: js_eq_def)
  moreover have "js_lt (Fin 0) (Fin (2 ^ 1020))"
    using pos by (simp only: js_lt.simps num_val.simps)
  moreover have "centerX (useChartDimensions (Fin 400) (Fin 400) (Fin 8)) = Fin 200"
    by (simp add: dimensions_400_400_8)
  ultimately show ?thesis
    using d mr a by blast
qed

section \<open>Properties of the path builder\<close>

lemma radarPath_for_eq:
  "radarPath_for fmt points i path =
     path @ concat (map (\<lambda>j. curveSegment fmt (points ! j) (points ! ((j + 1) mod length points)))
                      [i..<length points])"
proof (induction fmt points i path rule: radarPath_for.induct)
  case (1 fmt points i path)
  show ?case
  proof (cases "i < length points")
    case True
    then have "[i..<length points] = i # [Suc i..<length points]"
      by (simp add: upt_conv_Cons)
    with True 1 show ?thesis
      by (subst radarPath_for.simps) simp
  next
    case False
    then show ?thesis
      by (subst radarPath_for.simps) simp
  qed
qed

lemma curveSegment_spec:
  "curveSegment fmt current next = spec_curve fmt CONTROL_POINT_DISTANCE current next"
  by (simp add: curveSegment_def spec_curve_def spec_point_def Let_def)

lemma map_index_zip_rotate1:
  "map (\<lambda>j. f (points ! j) (points ! ((j + 1) mod length points))) [0..<length points]
     = map (\<lambda>(current, next). f current next) (zip points (rotate1 points))"
  by (rule nth_equalityI) (simp_all add: nth_rotate1)

lemma radarPath_spec:
  "radarPath fmt points = spec_buildSmoothClosedPath fmt points CONTROL_POINT_DISTANCE"
proof (cases "points = []")
  case True
  then show ?thesis by (simp add: radarPath_def spec_buildSmoothClosedPath_def)
next
  case False
  have "map (\<lambda>j. curveSegment fmt (points ! j) (points ! ((j + 1) mod length points)))
           [0..<length points]
      = map (\<lambda>(current, next). spec_curve fmt CONTROL_POINT_DISTANCE current next)
          (zip points (rotate1 points))"
    unfolding curveSegment_spec by (rule map_index_zip_rotate1)
  with False show ?thesis
    by (simp add: radarPath_def spec_buildSmoothClosedPath_def radarPath_for_eq spec_point_def
          hd_conv_nth)
qed

text \<open>The constant \<open>0.15\<close> of the source is the double nearest to \<open>15 / 100\<close>.\<close>

lemma CONTROL_POINT_DISTANCE_literal: "round64 False (15 / 100) = CONTROL_POINT_DISTANCE"
proof -
  have "round64 False (15 / 100)
      = Fin (of_int (round_half_even (15 / 100 / 2 powr (of_int (- 3 - 52))))
          * 2 powr (of_int (- 3 - 52)))"
    by (rule round64_eval) (simp_all add: powr_neg_numeral)
  also have "\<dots> = Fin (5404319552844595 / 2 ^ 55)"
    by (simp add: powr_neg_numeral round_half_even_def)
  finally show ?thesis
    by (simp add: CONTROL_POINT_DISTANCE_def)
qed

subsection \<open>The path of two points\<close>

lemma round64_dyadic:
  assumes "\<bar>m\<bar> < 2 ^ 53" and "m \<noteq> 0" and "k \<le> 1074"
  shows "round64 neg (of_int m / 2 ^ k) = Fin (of_int m / 2 ^ k)"
proof -
  have "rnd (of_int m / 2 ^ k) = of_int m / 2 ^ k"
    using assms(1,3) by (rule rnd_dyadic)
  moreover have "of_int m / 2 ^ k \<noteq> (0::real)"
    using assms(2) by simp
  moreover have "\<bar>of_int m / 2 ^ k :: real\<bar> < 2 ^ 1024"
  proof -
    have "\<bar>of_int m / 2 ^ k :: real\<bar> = \<bar>of_int m\<bar> / 2 ^ k"
      by simp
    also have "\<dots> \<le> \<bar>of_int m\<bar> / 1"
      by (intro divide_left_mono) simp_all
    also have "\<dots> = of_int \<bar>m\<bar>" by simp
    also have "\<dots> < of_int (2 ^ 53)"
      using assms(1) by (simp only: of_int_less_iff)
    also have "\<dots> \<le> (2::real) ^ 1024"
      by (simp add: power_increasing)
    finally show ?thesis .
  qed
  ultimately show ?thesis
    by (rule round64_exact)
qed

lemma half_minus_zero: "js_sub (Fin (1 / 2)) (Fin 0) = Fin (1 / 2)"
  using round64_dyadic[of 1 1 False] by (simp add: js_sub_def js_add_def)

lemma quarter_minus_zero: "js_sub (Fin (1 / 4)) (Fin 0) = Fin (1 / 4)"
  using round64_dyadic[of 1 2 False] by (simp add: js_sub_def js_add_def)

lemma zero_minus_half: "js_sub (Fin 0) (Fin (1 / 2)) = Fin (- (1 / 2))"
  using round64_dyadic[of "- 1" 1 False] by (simp add: js_sub_def js_add_def)

lemma zero_minus_quarter: "js_sub (Fin 0) (Fin (1 / 4)) = Fin (- (1 / 4))"
  using round64_dyadic[of "- 1" 2 False] by (simp add: js_sub_def js_add_def)

lemma half_times_distance:
  "js_mul (Fin (1 / 2)) CONTROL_POINT_DISTANCE = Fin (5404319552844595 / 2 ^ 56)"
  using round64_dyadic[of 5404319552844595 56 False]
  by (simp add: js_mul_def CONTROL_POINT_DISTANCE_def)

lemma quarter_times_distance:
  "js_mul (Fin (1 / 4)) CONTROL_POINT_DISTANCE = Fin (5404319552844595 / 2 ^ 57)"
  using round64_dyadic[of 5404319552844595 57 False]
  by (simp add: js_mul_def CONTROL_POINT_DISTANCE_def)

lemma minus_half_times_distance:
  "js_mul (Fin (- (1 / 2))) CONTROL_POINT_DISTANCE = Fin (- (5404319552844595 / 2 ^ 56))"
  using round64_dyadic[of "- 5404319552844595" 56 True]
  by (simp add: js_mul_def CONTROL_POINT_DISTANCE_def)

lemma minus_quarter_times_distance:
  "js_mul (Fin (- (1 / 4))) CONTROL_POINT_DISTANCE = Fin (- (5404319552844595 / 2 ^ 57))"
  using round64_dyadic[of "- 5404319552844595" 57 True]
  by (simp add: js_mul_def CONTROL_POINT_DISTANCE_def)

lemma zero_plus_056: "js_add (Fin 0) (Fin (5404319552844595 / 2 ^ 56)) = Fin (5404319552844595 / 2 ^ 56)"
  using round64_dyadic[of 5404319552844595 56 False] by (simp add: js_add_def)

lemma zero_plus_057: "js_add (Fin 0) (Fin (5404319552844595 / 2 ^ 57)) = Fin (5404319552844595 / 2 ^ 57)"
  using round64_dyadic[of 5404319552844595 57 False] by (simp add: js_add_def)

lemma zero_minus_minus_056:
  "js_sub (Fin 0) (Fin (- (5404319552844595 / 2 ^ 56))) = Fin (5404319552844595 / 2 ^ 56)"
  using round64_dyadic[of 5404319552844595 56 False] by (simp add: js_sub_def js_add_def)

lemma zero_minus_minus_057:
  "js_sub (Fin 0) (Fin (- (5404319552844595 / 2 ^ 57))) = Fin (5404319552844595 / 2 ^ 57)"
  using round64_dyadic[of 5404319552844595 57 False] by (simp add: js_sub_def js_add_def)

lemma half_plus_minus_056:
  "js_add (Fin (1 / 2)) (Fin (- (5404319552844595 / 2 ^ 56))) = Fin (7656119366529843 / 2 ^ 54)"
proof -
  have "round64 False (1 / 2 + - (5404319552844595 / 2 ^ 56))
      = Fin (of_int (round_half_even
               ((1 / 2 + - (5404319552844595 / 2 ^ 56)) / 2 powr (of_int (- 2 - 52))))
          * 2 powr (of_int (- 2 - 52)))"
    by (rule round64_eval) (simp_all add: powr_neg_numeral)
  also have "\<dots> = Fin (7656119366529843 / 2 ^ 54)"
    by (simp add: powr_neg_numeral round_half_even_def)
  finally show ?thesis
    by (simp add: js_add_def)
qed

lemma quarter_plus_minus_057:
  "js_add (Fin (1 / 4)) (Fin (- (5404319552844595 / 2 ^ 57))) = Fin (7656119366529843 / 2 ^ 55)"
proof -
  have "round64 False (1 / 4 + - (5404319552844595 / 2 ^ 57))
      = Fin (of_int (round_half_even
               ((1 / 4 + - (5404319552844595 / 2 ^ 57)) / 2 powr (of_int (- 3 - 52))))
          * 2 powr (of_int (- 3 - 52)))"
    by (rule round64_eval) (simp_all add: powr_neg_numeral)
  also have "\<dots> = Fin (7656119366529843 / 2 ^ 55)"
    by (simp add: powr_neg_numeral round_half_even_def)
  finally show ?thesis
    by (simp add: js_add_def)
qed

lemma half_minus_056:
  "js_sub (Fin (1 / 2)) (Fin (5404319552844595 / 2 ^ 56)) = Fin (7656119366529843 / 2 ^ 54)"
  using half_plus_minus_056 by (simp add: js_sub_def)

lemma quarter_minus_057:
  "js_sub (Fin (1 / 4)) (Fin (5404319552844595 / 2 ^ 57)) = Fin (7656119366529843 / 2 ^ 55)"
  using quarter_plus_minus_057 by (simp add: js_sub_def)

lemmas toFixed2_eval =
  toFixed2_def string_of_nat.simps digit_def Let_def

lemma toFixed2_examples:
  "toFixed2 fmt (Fin 0) = ''0.00''"
  "toFixed2 fmt (Fin (1 / 2)) = ''0.50''"
  "toFixed2 fmt (Fin (1 / 4)) = ''0.25''"
  "toFixed2 fmt (Fin (5404319552844595 / 2 ^ 56)) = ''0.07''"
  "toFixed2 fmt (Fin (5404319552844595 / 2 ^ 57)) = ''0.04''"
  "toFixed2 fmt (Fin (7656119366529843 / 2 ^ 54)) = ''0.42''"
  "toFixed2 fmt (Fin (7656119366529843 / 2 ^ 55)) = ''0.21''"
  by (simp_all add: toFixed2_eval)

lemma segment_out:
  "spec_curve fmt CONTROL_POINT_DISTANCE \<lparr>x = Fin 0, y = Fin 0\<rparr> \<lparr>x = Fin (1 / 2), y = Fin (1 / 4)\<rparr>
     = '' C 0.07 0.04, 0.42 0.21, 0.50 0.25''"
  by (simp only: spec_curve_def spec_point_def Let_def Point.simps
        half_minus_zero quarter_minus_zero half_times_distance quarter_times_distance
        zero_plus_056 zero_plus_057 half_minus_056 quarter_minus_057 toFixed2_examples)
     simp

lemma segment_back:
  "spec_curve fmt CONTROL_POINT_DISTANCE \<lparr>x = Fin (1 / 2), y = Fin (1 / 4)\<rparr> \<lparr>x = Fin 0, y = Fin 0\<rparr>
     = '' C 0.42 0.21, 0.07 0.04, 0.00 0.00''"
  by (simp only: spec_curve_def spec_point_def Let_def Point.simps
        zero_minus_half zero_minus_quarter minus_half_times_distance
        minus_quarter_times_distance half_plus_minus_056 quarter_plus_minus_057
        zero_minus_minus_056 zero_minus_minus_057 toFixed2_examples)
     simp

text \<open>
  C9: \<open>radarPath\<close> of no points is the empty string. Otherwise it is the path of the
  specification with the control point distance \<open>0.15\<close>, the double nearest to \<open>15 / 100\<close>:
  the move command \<open>M\<close> at the first point, then one cubic segment \<open>C cp1, cp2, next\<close> for
  each point and its successor (the successor of the last point is the first), with
  \<open>cp1 = current + delta * 0.15\<close> and \<open>cp2 = next - delta * 0.15\<close> in the arithmetic of
  doubles, then the closing marker \<open>Z\<close>.
\<close>

theorem radarPath_closed_curve:
  "radarPath fmt [] = ''''
   \<and> CONTROL_POINT_DISTANCE = round64 False (15 / 100)
   \<and> radarPath fmt points = spec_buildSmoothClosedPath fmt points (round64 False (15 / 100))
   \<and> (points \<noteq> [] \<longrightarrow>
        radarPath fmt points =
          ''M '' @ toFixed2 fmt (x (points ! 0)) @ '' '' @ toFixed2 fmt (y (points ! 0))
          @ concat (map (\<lambda>(current, next).
                       spec_curve fmt (round64 False (15 / 100)) current next)
                      (zip points (rotate1 points)))
          @ '' Z'')"
proof (intro conjI impI)
  show "radarPath fmt [] = ''''"
    by (simp add: radarPath_def)
  show "CONTROL_POINT_DISTANCE = round64 False (15 / 100)"
    by (simp only: CONTROL_POINT_DISTANCE_literal)
  show "radarPath fmt points = spec_buildSmoothClosedPath fmt points (round64 False (15 / 100))"
    unfolding CONTROL_POINT_DISTANCE_literal by (rule radarPath_spec)
  assume "points \<noteq> []"
  then show "radarPath fmt points =
          ''M '' @ toFixed2 fmt (x (points ! 0)) @ '' '' @ toFixed2 fmt (y (points ! 0))
          @ concat (map (\<lambda>(current, next).
                       spec_curve fmt (round64 False (15 / 100)) current next)
                      (zip points (rotate1 points)))
          @ '' Z''"
    unfolding CONTROL_POINT_DISTANCE_literal radarPath_spec[of fmt points]
    by (simp add: spec_buildSmoothClosedPath_def spec_point_def hd_conv_nth)
qed

theorem radarPath_closed_curve_witness:
  "[\<lparr>x = Fin 0, y = Fin 0\<rparr>, \<lparr>x = Fin (1 / 2), y = Fin (1 / 4)\<rparr>] \<noteq> []
   \<and> radarPath no_format [\<lparr>x = Fin 0, y = Fin 0\<rparr>, \<lparr>x = Fin (1 / 2), y = Fin (1 / 4)\<rparr>]
     = ''M 0.00 0.00 C 0.07 0.04, 0.42 0.21, 0.50 0.25 C 0.42 0.21, 0.07 0.04, 0.00 0.00 Z''"
proof -
  have ne: "[\<lparr>x = Fin 0, y = Fin 0\<rparr>, \<lparr>x = Fin (1 / 2), y = Fin (1 / 4)\<rparr>] \<noteq> []"
    by simp
  note path = radarPath_closed_curve[of no_format
      "[\<lparr>x = Fin 0, y = Fin 0\<rparr>, \<lparr>x = Fin (1 / 2), y = Fin (1 / 4)\<rparr>]",
      THEN conjunct2, THEN conjunct2, THEN conjunct2, THEN mp, OF ne]
  have z: "zip [\<lparr>x = Fin 0, y = Fin 0\<rparr>, \<lparr>x = Fin (1 / 2), y = Fin (1 / 4)\<rparr>]
             (rotate1 [\<lparr>x = Fin 0, y = Fin 0\<rparr>, \<lparr>x = Fin (1 / 2), y = Fin (1 / 4)\<rparr>])
      = [(\<lparr>x = Fin 0, y = Fin 0\<rparr>, \<lparr>x = Fin (1 / 2), y = Fin (1 / 4)\<rparr>),
         (\<lparr>x = Fin (1 / 2), y = Fin (1 / 4)\<rparr>, \<lparr>x = Fin 0, y = Fin 0\<rparr>)]"
    by simp
  have "radarPath no_format [\<lparr>x = Fin 0, y = Fin 0\<rparr>, \<lparr>x = Fin (1 / 2), y = Fin (1 / 4)\<rparr>]
     = ''M 0.00 0.00 C 0.07 0.04, 0.42 0.21, 0.50 0.25 C 0.42 0.21, 0.07 0.04, 0.00 0.00 Z''"
    unfolding path z CONTROL_POINT_DISTANCE_literal
    by (simp only: list.map prod.case concat.simps nth_Cons_0 Point.simps segment_out
          segment_back toFixed2_examples)
       simp
  with ne show ?thesis by simp
qed

end
